theory Spec2Isabelle
  imports Complex_Main "HOL-Library.Sublist"
begin

section \<open>Prompt constants of \<^verbatim>\<open>prompts.py\<close>\<close>

text \<open>
  The three module-level strings of \<^verbatim>\<open>prompts.py\<close>, character for character. Each is a
  triple-quoted Python literal, so it starts and ends with a newline; the list below has
  one entry per source line.
\<close>

definition SYS_MESSAGE_RESEARCH :: string where
  "SYS_MESSAGE_RESEARCH = concat
    [''\<newline>'',
     ''You are a full professor at the prestigious Massachusetts Institute of Technology. You have mastered the skill of reading academic research articles and excell at summarizing their general ideas in simple English.\<newline>'']"

definition MAP_PROMPT_RESEARCH :: string where
  "MAP_PROMPT_RESEARCH = concat
    [''\<newline>'',
     ''Article Page:\<newline>'',
     ''```{text}```\<newline>'',
     ''\<newline>'',
     ''Instructions:\<newline>'',
     ''Your task is to generate a summary of the provided `Article Page` of an academic research article.\<newline>'',
     ''Summarize the provided page, delimited by triple backticks, in at most {max_words} words.\<newline>'',
     ''Be detailed and specific when writting your page summary.\<newline>'',
     ''\<newline>'',
     ''Page Summary:\<newline>'']"

definition REDUCE_PROMPT_RESEARCH :: string where
  "REDUCE_PROMPT_RESEARCH = concat
    [''\<newline>'',
     ''Page Summaries:\<newline>'',
     ''```\<newline>'',
     ''{text}\<newline>'',
     ''```\<newline>'',
     ''\<newline>'',
     ''Output Format:\<newline>'',
     ''# Title\<newline>'',
     ''\<newline>'',
     ''## Category:\<newline>'',
     ''[What type of paper is this? An empirical paper? An analysis of an existing system? A description of a research prototype? A theoretical paper?]\<newline>'',
     ''\<newline>'',
     ''## Context:\<newline>'',
     ''[Which other specific papers is it related to? Which theoretical bases were used to analyze the problem?]\<newline>'',
     ''\<newline>'',
     ''## Correctness:\<newline>'',
     ''[Do the assumptions appear to be valid? Appear any of the assumptions to be problematic?]\<newline>'',
     ''\<newline>'',
     ''## Contributions:\<newline>'',
     ''[What are the paper's main contributions? What is the novelty?]\<newline>'',
     ''\<newline>'',
     ''## Clarity:\<newline>'',
     ''[Is the paper well written?]\<newline>'',
     ''\<newline>'',
     ''Instructions:\<newline>'',
     ''You are provided with `Page Summaries` of an academic research article delimited by triple back ticks. Your task is to write a final, coherent summary of the article in at most {max_words} words.\<newline>'',
     ''The final summary must answer the five C's (Category, Context, Correctness, Contributions, Clarity) in the provided `Output Format`.\<newline>'',
     ''Be detailed and specific when writting your final summary. Remember, to only provide the final summary according to the `Output Format`.\<newline>'']"

section \<open>Data model of \<^verbatim>\<open>app.py\<close>\<close>

text \<open>
  The radio widget offers exactly the two options \<^verbatim>\<open>["General", "Research"]\<close>, so the
  selected mode is one of two values.
\<close>

datatype mode = General | Research

text \<open>One entry of the dictionary \<^verbatim>\<open>mode_settings\<close>.\<close>

record mode_setting =
  sys_message :: string
  map_prompt_tpl :: string
  reduce_prompt_tpl :: string

text \<open>
  The keyword arguments of one call of \<^verbatim>\<open>get_chat_response\<close>. The map stage does not
  pass \<^verbatim>\<open>max_tokens\<close> (\<open>None\<close>); the reduce stage passes 1024.
\<close>

record request =
  req_prompt :: string
  req_sys_message :: string
  req_model :: string
  req_max_tokens :: "nat option"

text \<open>
  Exceptions. \<open>Raised e\<close> is an exception \<open>e\<close> coming out of an external collaborator
  (the page extractor, the prompt builder, the chat client, the file system);
  \<open>ZeroDivisionError\<close> is what the division \<^verbatim>\<open>(i + 1) / total_pages\<close> raises for a zero
  divisor, and \<open>OverflowError\<close> what it raises for a quotient too large for a float.
\<close>

datatype 'e exn = ZeroDivisionError | OverflowError | Raised 'e

text \<open>The log records the program writes, one constructor per format string.\<close>

datatype 'e log_msg =
    PagesLoaded nat           \<comment> \<open>\<^verbatim>\<open>"Successfully loaded text from %d PDF pages."\<close>\<close>
  | PdfError "'e exn"         \<comment> \<open>\<^verbatim>\<open>"An error occurred while processing PDF: %s"\<close>\<close>
  | MapSummary int string     \<comment> \<open>\<^verbatim>\<open>"Map Summary #%d: %s"\<close>\<close>
  | MapError int "'e exn"     \<comment> \<open>\<^verbatim>\<open>"An error occurred while generating summary #%d: %s"\<close>\<close>
  | ReduceDone                \<comment> \<open>\<^verbatim>\<open>"Completed final reduce summary!"\<close>\<close>
  | ReduceError "'e exn"      \<comment> \<open>\<^verbatim>\<open>"An error occurred while generating final summary: %s"\<close>\<close>

text \<open>
  Everything the program does to the outside, in the order it does it: calls of the
  external collaborators (with their arguments), log records, and updates of the
  progress bar and of the status line.
\<close>

datatype 'e event =
    WriteFile string string         \<comment> \<open>\<^verbatim>\<open>open(path, "wb")\<close> and \<^verbatim>\<open>f.write(data)\<close>\<close>
  | ExtractCall string int int      \<comment> \<open>\<^verbatim>\<open>extract_pages_text(pdf_path, start_page, end_page)\<close>\<close>
  | BuildCall string string int     \<comment> \<open>\<^verbatim>\<open>build_prompt(template, text, max_words)\<close>\<close>
  | ChatCall request                \<comment> \<open>\<^verbatim>\<open>get_chat_response(...)\<close>\<close>
  | LogInfo "'e log_msg"            \<comment> \<open>\<^verbatim>\<open>logging.info\<close>\<close>
  | LogError "'e log_msg"           \<comment> \<open>\<^verbatim>\<open>logging.error\<close>\<close>
  | ProgressCreate int              \<comment> \<open>\<^verbatim>\<open>st.progress(0)\<close>, which creates the bar\<close>
  | Progress rat                    \<comment> \<open>\<^verbatim>\<open>progress_bar.progress(value)\<close>\<close>
  | StatusInfo string               \<comment> \<open>\<^verbatim>\<open>status_text.info\<close>\<close>
  | StatusSuccess string            \<comment> \<open>\<^verbatim>\<open>status_text.success\<close>\<close>
  | StatusError "'e exn"            \<comment> \<open>\<^verbatim>\<open>status_text.error(f"An error occurred: {err}")\<close>\<close>

text \<open>
  The state the program runs in: the state \<open>ext\<close> of the external collaborators (the
  file system and the model service, of which nothing is known), the trace of events so
  far, oldest first, and Streamlit's \<^verbatim>\<open>st.session_state\<close>, a dictionary whose value under
  \<^verbatim>\<open>"final_summary"\<close> is \<^verbatim>\<open>None\<close> or a string.
\<close>

record ('e, 'x) world =
  ext :: 'x
  trace :: "'e event list"
  session_state :: "string \<rightharpoonup> string option"

text \<open>
  The imports from the library \<^verbatim>\<open>genaipy\<close> and the file system, which are not part of
  this program, are parameters. A call takes the external state and returns its result
  (\<open>Inl\<close> an exception) with the new external state, so a collaborator may answer the
  same request differently each time. \<^verbatim>\<open>build_prompt\<close> renders a template and touches
  nothing. A PageSet is the dictionary the extractor returns: page number and page text
  in the dictionary's iteration order.
\<close>

type_synonym page_set = "(int \<times> string) list"

record ('e, 'x) env =
  extract_pages_text :: "string \<Rightarrow> int \<Rightarrow> int \<Rightarrow> 'x \<Rightarrow> ('e + page_set) \<times> 'x"
  build_prompt :: "string \<Rightarrow> string \<Rightarrow> int \<Rightarrow> 'e + string"
  get_chat_response :: "request \<Rightarrow> 'x \<Rightarrow> ('e + string) \<times> 'x"
  write_file :: "string \<Rightarrow> string \<Rightarrow> 'x \<Rightarrow> 'e option \<times> 'x"
  DEFAULT_SYS_MESSAGE :: string
  SUMMARY_PROMPT_TPL :: string
  REDUCE_SUMMARY_PROMPT_TPL :: string

text \<open>
  The values read from the widgets in one execution of the script: the sidebar's mode and
  word limits, the uploaded file (its bytes, if any), the two page numbers and whether
  the button was pressed.
\<close>

record ui =
  selected_mode :: mode
  user_map_words :: int
  user_reduce_words :: int
  uploaded_file :: "string option"
  user_start_page :: int
  user_end_page :: int
  button :: bool

section \<open>Mode-specific prompts (lines 24--59)\<close>

definition mode_settings :: "('e, 'x) env \<Rightarrow> mode \<Rightarrow> mode_setting" where
  "mode_settings env m =
     (case m of
        General \<Rightarrow>
          \<lparr>sys_message = DEFAULT_SYS_MESSAGE env,
           map_prompt_tpl = SUMMARY_PROMPT_TPL env,
           reduce_prompt_tpl = REDUCE_SUMMARY_PROMPT_TPL env\<rparr>
      | Research \<Rightarrow>
          \<lparr>sys_message = SYS_MESSAGE_RESEARCH,
           map_prompt_tpl = MAP_PROMPT_RESEARCH,
           reduce_prompt_tpl = REDUCE_PROMPT_RESEARCH\<rparr>)"

definition user_system_message :: "('e, 'x) env \<Rightarrow> ui \<Rightarrow> string" where
  "user_system_message env u = sys_message (mode_settings env (selected_mode u))"

definition map_prompt_template :: "('e, 'x) env \<Rightarrow> ui \<Rightarrow> string" where
  "map_prompt_template env u = map_prompt_tpl (mode_settings env (selected_mode u))"

definition reduce_prompt_template :: "('e, 'x) env \<Rightarrow> ui \<Rightarrow> string" where
  "reduce_prompt_template env u = reduce_prompt_tpl (mode_settings env (selected_mode u))"

section \<open>Effects\<close>

definition emit :: "'e event \<Rightarrow> ('e, 'x) world \<Rightarrow> ('e, 'x) world" where
  "emit ev w = w\<lparr>trace := trace w @ [ev]\<rparr>"

definition call_extract ::
  "('e, 'x) env \<Rightarrow> string \<Rightarrow> int \<Rightarrow> int \<Rightarrow> ('e, 'x) world \<Rightarrow> ('e exn + page_set) \<times> ('e, 'x) world" where
  "call_extract env pdf_path start_page end_page w =
     (let w1 = emit (ExtractCall pdf_path start_page end_page) w
      in case extract_pages_text env pdf_path start_page end_page (ext w1) of
           (Inl e, x) \<Rightarrow> (Inl (Raised e), w1\<lparr>ext := x\<rparr>)
         | (Inr pages, x) \<Rightarrow> (Inr pages, w1\<lparr>ext := x\<rparr>))"

definition call_build ::
  "('e, 'x) env \<Rightarrow> string \<Rightarrow> string \<Rightarrow> int \<Rightarrow> ('e, 'x) world \<Rightarrow> ('e exn + string) \<times> ('e, 'x) world" where
  "call_build env template text max_words w =
     (let w1 = emit (BuildCall template text max_words) w
      in case build_prompt env template text max_words of
           Inl e \<Rightarrow> (Inl (Raised e), w1)
         | Inr p \<Rightarrow> (Inr p, w1))"

definition call_chat ::
  "('e, 'x) env \<Rightarrow> request \<Rightarrow> ('e, 'x) world \<Rightarrow> ('e exn + string) \<times> ('e, 'x) world" where
  "call_chat env r w =
     (let w1 = emit (ChatCall r) w
      in case get_chat_response env r (ext w1) of
           (Inl e, x) \<Rightarrow> (Inl (Raised e), w1\<lparr>ext := x\<rparr>)
         | (Inr s, x) \<Rightarrow> (Inr s, w1\<lparr>ext := x\<rparr>))"

definition call_write ::
  "('e, 'x) env \<Rightarrow> string \<Rightarrow> string \<Rightarrow> ('e, 'x) world \<Rightarrow> 'e exn option \<times> ('e, 'x) world" where
  "call_write env path data w =
     (let w1 = emit (WriteFile path data) w
      in case write_file env path data (ext w1) of
           (Some e, x) \<Rightarrow> (Some (Raised e), w1\<lparr>ext := x\<rparr>)
         | (None, x) \<Rightarrow> (None, w1\<lparr>ext := x\<rparr>))"

section \<open>Float division\<close>

text \<open>
  Python's \<^verbatim>\<open>a / b\<close> on integers gives a float: the IEEE 754 double nearest to the
  exact quotient, a tie going to the double with the even significand. A finite double
  is a rational number, and the model keeps it as that number.

  \<open>bit_length\<close> is \<^verbatim>\<open>int.bit_length\<close>, and \<open>pow2 e\<close> is \<open>2\<close> to the power \<open>e\<close>, also for a
  negative \<open>e\<close>.
\<close>

fun bit_length :: "nat \<Rightarrow> nat" where
  "bit_length n = (if n = 0 then 0 else Suc (bit_length (n div 2)))"

declare bit_length.simps [simp del]

definition pow2 :: "int \<Rightarrow> rat" where
  "pow2 e = (if 0 \<le> e then 2 ^ nat e else 1 / 2 ^ nat (- e))"

text \<open>The integer nearest to \<open>x\<close>, the even one of the two when \<open>x\<close> is half-way.\<close>

definition round_half_even :: "rat \<Rightarrow> int" where
  "round_half_even x =
     (let f = \<lfloor>x\<rfloor>; r = x - of_int f
      in if r < 1 / 2 then f else if 1 / 2 < r then f + 1 else if even f then f else f + 1)"

text \<open>
  The quotient rounded to 53 significant bits. The exponent \<open>e\<close> is the one with
  \<open>2 ^ e \<le> |q| < 2 ^ (e + 1)\<close>, found from the bit lengths and not below that of the
  smallest normal double; doubles of that size are \<open>ulp = 2 ^ (e - 52)\<close> apart, and the
  quotient is rounded to a multiple of \<open>ulp\<close>.
\<close>

definition double_div :: "int \<Rightarrow> int \<Rightarrow> rat" where
  "double_div a b =
     (if a = 0 then 0
      else let q = of_int a / of_int b;
               d = int (bit_length (nat \<bar>a\<bar>)) - int (bit_length (nat \<bar>b\<bar>));
               e = max (if pow2 d \<le> \<bar>q\<bar> then d else d - 1) (- 1022);
               ulp = pow2 (e - 52)
           in of_int (round_half_even (q / ulp)) * ulp)"

text \<open>
  The division raises for a zero divisor, and for a rounded quotient beyond the largest
  double.
\<close>

definition py_truediv :: "int \<Rightarrow> int \<Rightarrow> 'e exn + rat" where
  "py_truediv a b =
     (if b = 0 then Inl ZeroDivisionError
      else if pow2 1024 \<le> \<bar>double_div a b\<bar> then Inl OverflowError
      else Inr (double_div a b))"

section \<open>Strings\<close>

text \<open>\<^verbatim>\<open>sep.join(xs)\<close>\<close>

fun str_join :: "string \<Rightarrow> string list \<Rightarrow> string" where
  "str_join sep [] = []"
| "str_join sep [x] = x"
| "str_join sep (x # y # ys) = x @ sep @ str_join sep (y # ys)"

text \<open>
  \<^verbatim>\<open>s.replace(old, new)\<close>: the occurrences of \<open>old\<close> are found from left to right and do
  not overlap. For an empty \<open>old\<close>, Python puts \<open>new\<close> before every character and at the
  end.
\<close>

function str_replace :: "string \<Rightarrow> string \<Rightarrow> string \<Rightarrow> string" where
  "str_replace old new [] = (if old = [] then new else [])"
| "str_replace old new (c # cs) =
     (if old = [] then new @ c # str_replace old new cs
      else if prefix old (c # cs) then new @ str_replace old new (drop (length old) (c # cs))
      else c # str_replace old new cs)"
  by pat_completeness auto
termination
  by (relation "measure (\<lambda>(old, new, s). length s)") auto

section \<open>The functions of \<^verbatim>\<open>app.py\<close>\<close>

definition process_pdf ::
  "('e, 'x) env \<Rightarrow> string \<Rightarrow> int \<Rightarrow> int \<Rightarrow> ('e, 'x) world \<Rightarrow> ('e exn + page_set) \<times> ('e, 'x) world" where
  "process_pdf env full_path start_page end_page w =
     (case call_extract env full_path start_page end_page w of
        (Inr pages, w1) \<Rightarrow> (Inr pages, emit (LogInfo (PagesLoaded (length pages))) w1)
      | (Inl e, w1) \<Rightarrow> (Inl e, emit (LogError (PdfError e)) w1))"

text \<open>
  The \<^verbatim>\<open>try\<close> block of the loop of \<^verbatim>\<open>generate_map_summaries\<close> for the page at index \<open>i\<close>:
  the first statement that raises ends it. The template is the constant
  \<^verbatim>\<open>MAP_PROMPT_RESEARCH\<close>, as in the source. Logging and the update of the progress bar
  are recorded as events and do not raise here.
\<close>

definition map_body ::
  "('e, 'x) env \<Rightarrow> ui \<Rightarrow> nat \<Rightarrow> nat \<Rightarrow> string \<Rightarrow> int \<Rightarrow> string list \<Rightarrow> ('e, 'x) world
     \<Rightarrow> ('e exn + string list) \<times> ('e, 'x) world" where
  "map_body env u total_pages i content page map_summaries w =
     (case call_build env MAP_PROMPT_RESEARCH content (user_map_words u) w of
        (Inl e, w1) \<Rightarrow> (Inl e, w1)
      | (Inr map_prompt, w1) \<Rightarrow>
          (case call_chat env
                  \<lparr>req_prompt = map_prompt, req_sys_message = user_system_message env u,
                   req_model = ''gpt-3.5-turbo'', req_max_tokens = None\<rparr> w1 of
             (Inl e, w2) \<Rightarrow> (Inl e, w2)
           | (Inr summary, w2) \<Rightarrow>
               (let w3 = emit (LogInfo (MapSummary page summary)) w2
                in case py_truediv (int i + 1) (int total_pages) of
                     Inl e \<Rightarrow> (Inl e, w3)
                   | Inr v \<Rightarrow> (Inr (map_summaries @ [summary]), emit (Progress v) w3))))"

text \<open>
  The loop \<^verbatim>\<open>for i, (page, content) in enumerate(pages.items())\<close>, from index \<open>i\<close> on: the
  \<^verbatim>\<open>except\<close> clause logs the page number with the exception and raises the same
  exception again.
\<close>

fun map_loop ::
  "('e, 'x) env \<Rightarrow> ui \<Rightarrow> nat \<Rightarrow> nat \<Rightarrow> page_set \<Rightarrow> string list \<Rightarrow> ('e, 'x) world
     \<Rightarrow> ('e exn + string list) \<times> ('e, 'x) world" where
  "map_loop env u total_pages i [] map_summaries w = (Inr map_summaries, w)"
| "map_loop env u total_pages i ((page, content) # rest) map_summaries w =
     (case map_body env u total_pages i content page map_summaries w of
        (Inl e, w1) \<Rightarrow> (Inl e, emit (LogError (MapError page e)) w1)
      | (Inr map_summaries', w1) \<Rightarrow> map_loop env u total_pages (Suc i) rest map_summaries' w1)"

definition generate_map_summaries ::
  "('e, 'x) env \<Rightarrow> ui \<Rightarrow> page_set \<Rightarrow> ('e, 'x) world \<Rightarrow> ('e exn + string list) \<times> ('e, 'x) world" where
  "generate_map_summaries env u pages w = map_loop env u (length pages) 0 pages [] w"

text \<open>The text of the reduce prompt: \<^verbatim>\<open>"\n".join(map_summaries).replace("\n\n", "")\<close>.\<close>

definition reduce_text :: "string list \<Rightarrow> string" where
  "reduce_text map_summaries =
     str_replace ''\<newline>\<newline>'' '''' (str_join ''\<newline>'' map_summaries)"

definition reduce_body ::
  "('e, 'x) env \<Rightarrow> ui \<Rightarrow> string \<Rightarrow> ('e, 'x) world \<Rightarrow> ('e exn + string) \<times> ('e, 'x) world" where
  "reduce_body env u text w =
     (case call_build env REDUCE_PROMPT_RESEARCH text (user_reduce_words u) w of
        (Inl e, w1) \<Rightarrow> (Inl e, w1)
      | (Inr reduce_prompt, w1) \<Rightarrow>
          (case call_chat env
                  \<lparr>req_prompt = reduce_prompt, req_sys_message = user_system_message env u,
                   req_model = ''gpt-4-1106-preview'', req_max_tokens = Some 1024\<rparr> w1 of
             (Inl e, w2) \<Rightarrow> (Inl e, w2)
           | (Inr final_summary, w2) \<Rightarrow> (Inr final_summary, emit (LogInfo ReduceDone) w2)))"

definition generate_reduce_summary ::
  "('e, 'x) env \<Rightarrow> ui \<Rightarrow> string list \<Rightarrow> ('e, 'x) world \<Rightarrow> ('e exn + string) \<times> ('e, 'x) world" where
  "generate_reduce_summary env u map_summaries w =
     (case reduce_body env u (reduce_text map_summaries) w of
        (Inl e, w1) \<Rightarrow> (Inl e, emit (LogError (ReduceError e)) w1)
      | (Inr final_summary, w1) \<Rightarrow> (Inr final_summary, w1))"

section \<open>The script (lines 41--43 and 140--166)\<close>

definition init_session :: "('e, 'x) world \<Rightarrow> ('e, 'x) world" where
  "init_session w =
     (if ''final_summary'' \<in> dom (session_state w) then w
      else w\<lparr>session_state := (session_state w)(''final_summary'' \<mapsto> None)\<rparr>)"

definition TEMP_PDF_PATH :: string where
  "TEMP_PDF_PATH = ''temp.pdf''"

text \<open>
  The body of the \<^verbatim>\<open>try\<close> statement of the button handler. The slot
  \<^verbatim>\<open>st.session_state["final_summary"]\<close> is assigned the value
  \<^verbatim>\<open>generate_reduce_summary\<close> returns.
\<close>

definition try_block ::
  "('e, 'x) env \<Rightarrow> ui \<Rightarrow> ('e, 'x) world \<Rightarrow> ('e exn + unit) \<times> ('e, 'x) world" where
  "try_block env u w =
     (case process_pdf env TEMP_PDF_PATH (user_start_page u) (user_end_page u) w of
        (Inl e, w1) \<Rightarrow> (Inl e, w1)
      | (Inr temp_pages, w1) \<Rightarrow>
          (let w2 = emit (StatusInfo ''Step 1: Generating map summaries...'') w1
           in case generate_map_summaries env u temp_pages w2 of
                (Inl e, w3) \<Rightarrow> (Inl e, w3)
              | (Inr temp_map_summaries, w3) \<Rightarrow>
                  (let w4 = emit (StatusInfo ''Step 2: Generating final summary...'') w3
                   in case generate_reduce_summary env u temp_map_summaries w4 of
                        (Inl e, w5) \<Rightarrow> (Inl e, w5)
                      | (Inr s, w5) \<Rightarrow>
                          (Inr (),
                           emit (StatusSuccess ''Summary generation completed successfully!'')
                             (w5\<lparr>session_state :=
                                   (session_state w5)(''final_summary'' \<mapsto> Some s)\<rparr>)))))"

text \<open>
  The button handler: the upload is written to the temporary file (an exception there is
  not caught and ends the script, \<open>Some e\<close>), the progress bar is created at 0, and an
  exception of the \<^verbatim>\<open>try\<close> block is shown in the status line.
\<close>

definition on_click ::
  "('e, 'x) env \<Rightarrow> ui \<Rightarrow> string \<Rightarrow> ('e, 'x) world \<Rightarrow> 'e exn option \<times> ('e, 'x) world" where
  "on_click env u data w =
     (case call_write env TEMP_PDF_PATH data w of
        (Some e, w1) \<Rightarrow> (Some e, w1)
      | (None, w1) \<Rightarrow>
          (case try_block env u (emit (ProgressCreate 0) w1) of
             (Inl err, w2) \<Rightarrow> (None, emit (StatusError err) w2)
           | (Inr _, w2) \<Rightarrow> (None, w2)))"

text \<open>
  One execution of the script: the session slot is initialised if it is absent, and the
  handler runs when the button was pressed and a file is uploaded. The widgets that only
  draw (title, sidebar, spinner, the placeholder of the status line, and the display and
  download of a stored summary at the end) change nothing the functions above read and
  are left out.
\<close>

definition script ::
  "('e, 'x) env \<Rightarrow> ui \<Rightarrow> ('e, 'x) world \<Rightarrow> 'e exn option \<times> ('e, 'x) world" where
  "script env u w =
     (let w0 = init_session w
      in case uploaded_file u of
           None \<Rightarrow> (None, w0)
         | Some data \<Rightarrow> if button u then on_click env u data w0 else (None, w0))"

section \<open>Reading a trace\<close>

text \<open>The keyword arguments of the map stage's call of the chat client for a prompt \<open>p\<close>.\<close>

definition map_request :: "('e, 'x) env \<Rightarrow> ui \<Rightarrow> string \<Rightarrow> request" where
  "map_request env u p =
     \<lparr>req_prompt = p, req_sys_message = user_system_message env u,
      req_model = ''gpt-3.5-turbo'', req_max_tokens = None\<rparr>"

text \<open>
  The events of one completed page of the map stage, in their order: the prompt is built
  from the page's text, the chat client is called with the prompt \<open>p\<close>, the summary \<open>s\<close>
  it returned is logged with the page number, and the progress bar is set to the float
  \<^verbatim>\<open>(i + 1) / total_pages\<close>.
\<close>

definition page_events ::
  "('e, 'x) env \<Rightarrow> ui \<Rightarrow> nat \<Rightarrow> nat \<Rightarrow> int \<times> string \<Rightarrow> string \<Rightarrow> string \<Rightarrow> 'e event list" where
  "page_events env u total_pages i pc p s =
     [BuildCall MAP_PROMPT_RESEARCH (snd pc) (user_map_words u),
      ChatCall (map_request env u p),
      LogInfo (MapSummary (fst pc) s),
      Progress (double_div (int i + 1) (int total_pages))]"

text \<open>The templates handed to \<^verbatim>\<open>build_prompt\<close>, in the order of the calls.\<close>

definition built_template :: "'e event \<Rightarrow> string list" where
  "built_template ev = (case ev of BuildCall t _ _ \<Rightarrow> [t] | _ \<Rightarrow> [])"

definition built_templates :: "'e event list \<Rightarrow> string list" where
  "built_templates evs = concat (map built_template evs)"

text \<open>
  The events only \<^verbatim>\<open>generate_reduce_summary\<close> produces: a prompt built from the reduce
  template, a chat call to the reduce model, and its two log records.
\<close>

definition reduce_event :: "'e event \<Rightarrow> bool" where
  "reduce_event ev =
     (case ev of
        BuildCall t _ _ \<Rightarrow> t = REDUCE_PROMPT_RESEARCH
      | ChatCall r \<Rightarrow> req_model r = ''gpt-4-1106-preview''
      | LogInfo ReduceDone \<Rightarrow> True
      | LogError (ReduceError _) \<Rightarrow> True
      | _ \<Rightarrow> False)"

section \<open>Stand-ins for the external collaborators\<close>

text \<open>
  A small environment to run the program on. Its extractor returns the pages of the
  document \<open>doc\<close> within the range, and raises for a range whose start exceeds its end;
  its prompt builder returns the text alone; its chat client raises for the prompt
  \<open>bad\<close> and otherwise answers with a summary that quotes the prompt, counting its calls
  in the external state. The three \<^verbatim>\<open>genaipy\<close> constants stand for the library's General
  texts.
\<close>

definition stub_env :: "page_set \<Rightarrow> (string, nat) env" where
  "stub_env doc =
     \<lparr>extract_pages_text =
        (\<lambda>pdf_path start_page end_page x.
           (if start_page \<le> end_page
            then Inr (filter (\<lambda>(page, content). start_page \<le> page \<and> page \<le> end_page) doc)
            else Inl ''ValueError'', x)),
      build_prompt = (\<lambda>template text max_words. Inr text),
      get_chat_response =
        (\<lambda>r x. (if req_prompt r = ''bad'' then Inl ''CompletionError''
                 else Inr (''Summary of '' @ req_prompt r), Suc x)),
      write_file = (\<lambda>path data x. (None, x)),
      DEFAULT_SYS_MESSAGE = ''general system message'',
      SUMMARY_PROMPT_TPL = ''general map template {text} {max_words}'',
      REDUCE_SUMMARY_PROMPT_TPL = ''general reduce template {text} {max_words}''\<rparr>"

text \<open>The same environment with a chat client that never raises.\<close>

definition ok_env :: "(string, nat) env" where
  "ok_env =
     (stub_env [])\<lparr>get_chat_response := (\<lambda>r x. (Inr (''Summary of '' @ req_prompt r), Suc x))\<rparr>"

text \<open>An environment whose prompt builder raises and whose chat client never does.\<close>

definition no_template_env :: "(string, nat) env" where
  "no_template_env = ok_env\<lparr>build_prompt := (\<lambda>template text max_words. Inl ''TemplateError'')\<rparr>"

definition stub_ui :: "mode \<Rightarrow> int \<Rightarrow> int \<Rightarrow> ui" where
  "stub_ui m start_page end_page =
     \<lparr>selected_mode = m, user_map_words = 150, user_reduce_words = 300,
      uploaded_file = Some ''%PDF'', user_start_page = start_page, user_end_page = end_page,
      button = True\<rparr>"

text \<open>A fresh state whose session dictionary holds \<open>slot\<close> under \<^verbatim>\<open>"final_summary"\<close>.\<close>

definition stub_world :: "string option option \<Rightarrow> (string, nat) world" where
  "stub_world slot =
     \<lparr>ext = 0, trace = [], session_state = (\<lambda>k. if k = ''final_summary'' then slot else None)\<rparr>"

section \<open>The reduce text in the specification's words\<close>

text \<open>
  The specification says of the joined text that doubled newline sequences are
  collapsed, a clean-up that leaves every summary present and separated: a doubled
  newline becomes a single one. This is that reading, to compare \<open>reduce_text\<close> with.
\<close>

definition collapse_doubled_newlines :: "string \<Rightarrow> string" where
  "collapse_doubled_newlines s = str_replace ''\<newline>\<newline>'' ''\<newline>'' s"

section \<open>Basic facts\<close>

lemma emit_simps [simp]:
  "trace (emit ev w) = trace w @ [ev]"
  "ext (emit ev w) = ext w"
  "session_state (emit ev w) = session_state w"
  by (simp_all add: emit_def)

lemmas step_defs = call_build_def call_chat_def call_extract_def call_write_def map_body_def

lemma map_neq_reduce: "MAP_PROMPT_RESEARCH \<noteq> REDUCE_PROMPT_RESEARCH"
  by (simp add: MAP_PROMPT_RESEARCH_def REDUCE_PROMPT_RESEARCH_def)

lemma upt_0_Suc_shift: "[0..<Suc k] = 0 # map Suc [0..<k]"
  by (simp add: upt_conv_Cons map_Suc_upt del: upt_Suc)

section \<open>Float division\<close>

lemma bit_length_0 [simp]: "bit_length 0 = 0"
  by (subst bit_length.simps) simp

lemma bit_length_pos: "n \<noteq> 0 \<Longrightarrow> bit_length n = Suc (bit_length (n div 2))"
  by (subst bit_length.simps) simp

lemma floor_rat_numeral_divide:
  "\<lfloor>numeral a / numeral b :: rat\<rfloor> = numeral a div numeral b"
  by (metis floor_divide_of_int_eq of_int_numeral)

lemmas double_eval = py_truediv_def double_div_def pow2_def round_half_even_def
  bit_length_pos floor_rat_numeral_divide

lemma double_div_self: "0 < n \<Longrightarrow> double_div n n = 1"
  by (simp add: double_div_def pow2_def round_half_even_def Let_def)

lemma pow2_pos: "0 < pow2 e"
  by (simp add: pow2_def)

lemma pow2_le_one: "e \<le> 0 \<Longrightarrow> pow2 e \<le> 1"
  by (simp add: pow2_def divide_le_eq_1)

lemma bit_length_mono: "m \<le> n \<Longrightarrow> bit_length m \<le> bit_length n"
proof (induction n arbitrary: m rule: bit_length.induct)
  case (1 n)
  show ?case
  proof (cases "m = 0")
    case True
    then show ?thesis by simp
  next
    case False
    with 1 have n: "n \<noteq> 0" by simp
    have "m div 2 \<le> n div 2" using "1.prems" by (simp add: div_le_mono)
    from "1.IH"[OF n this] show ?thesis
      using False n by (simp add: bit_length_pos)
  qed
qed

lemma round_half_even_bounds:
  "of_int (round_half_even x) \<le> x + 1" "0 \<le> x \<Longrightarrow> 0 \<le> round_half_even x"
  by (auto simp: round_half_even_def Let_def) linarith+

text \<open>A quotient of at most 1 is rounded to a double in range.\<close>

lemma double_div_unit:
  assumes "0 < a" and "a \<le> b"
  shows "0 \<le> double_div a b" and "double_div a b \<le> 2"
proof -
  define q :: rat where "q = of_int a / of_int b"
  define d where "d = int (bit_length (nat \<bar>a\<bar>)) - int (bit_length (nat \<bar>b\<bar>))"
  define e where "e = max (if pow2 d \<le> \<bar>q\<bar> then d else d - 1) (- 1022)"
  define ulp where "ulp = pow2 (e - 52)"
  have q: "0 \<le> q" "q \<le> 1" using assms by (simp_all add: q_def)
  have "nat \<bar>a\<bar> \<le> nat \<bar>b\<bar>" using assms by simp
  then have "bit_length (nat \<bar>a\<bar>) \<le> bit_length (nat \<bar>b\<bar>)"
    by (rule bit_length_mono)
  then have "d \<le> 0" by (simp add: d_def)
  then have "e \<le> 0" by (simp add: e_def)
  then have "e - 52 \<le> 0" by simp
  then have "pow2 (e - 52) \<le> 1" by (rule pow2_le_one)
  then have ulp: "0 < ulp" "ulp \<le> 1"
    by (simp_all add: ulp_def pow2_pos)
  have a0: "a \<noteq> 0" using assms by simp
  have v: "double_div a b = of_int (round_half_even (q / ulp)) * ulp"
    unfolding double_div_def Let_def q_def d_def e_def ulp_def using a0 by (simp only: if_False)
  have "0 \<le> q / ulp" using q(1) ulp(1) by simp
  then have "0 \<le> round_half_even (q / ulp)" by (rule round_half_even_bounds(2))
  then show "0 \<le> double_div a b" using ulp(1) unfolding v by simp
  have "of_int (round_half_even (q / ulp)) * ulp \<le> (q / ulp + 1) * ulp"
    using round_half_even_bounds(1)[of "q / ulp"] ulp(1) by (simp add: mult_right_mono)
  also have "\<dots> = q + ulp" using ulp(1) by (simp add: algebra_simps)
  also have "\<dots> \<le> 2" using q(2) ulp(2) by simp
  finally show "double_div a b \<le> 2" unfolding v .
qed

lemma py_truediv_unit:
  assumes "0 < a" and "a \<le> b"
  shows "py_truediv a b = Inr (double_div a b)"
proof -
  have "(2 :: rat) < 2 ^ 1024" by (rule order_less_le_trans[of _ "2 ^ 2"]) simp_all
  then have "\<bar>double_div a b\<bar> < pow2 1024"
    using double_div_unit[OF assms] by (simp add: pow2_def)
  with assms show ?thesis by (simp add: py_truediv_def)
qed

lemma py_truediv_Inr: "py_truediv a b = Inr v \<Longrightarrow> v = double_div a b"
  by (simp add: py_truediv_def split: if_splits)

lemma py_truediv_zero: "py_truediv a b = Inl ZeroDivisionError \<Longrightarrow> b = 0"
  by (simp add: py_truediv_def split: if_splits)

section \<open>One page of the map stage\<close>

lemma map_body_frame:
  assumes "map_body env u n i content page acc w = (r, w')"
  shows "session_state w' = session_state w \<and>
         (\<exists>evs. trace w' = trace w @ evs \<and> list_all (\<lambda>ev. \<not> reduce_event ev) evs)"
  using assms map_neq_reduce
  by (auto simp: step_defs Let_def reduce_event_def split: sum.splits prod.splits)

lemma map_body_no_zero_div:
  assumes "map_body env u n i content page acc w = (Inl e, w')" and "0 < n"
  shows "e \<noteq> ZeroDivisionError"
  using assms
  by (auto simp: step_defs Let_def split: sum.splits prod.splits dest: py_truediv_zero)

lemma map_body_Inr:
  assumes "map_body env u n i content page acc w = (Inr ys, w')"
  obtains p s where
    "build_prompt env MAP_PROMPT_RESEARCH content (user_map_words u) = Inr p"
    "get_chat_response env (map_request env u p) (ext w) = (Inr s, ext w')"
    "ys = acc @ [s]"
    "trace w' = trace w @ page_events env u n i (page, content) p s"
    "session_state w' = session_state w"
  using assms
  by (auto simp: step_defs map_request_def page_events_def Let_def
      split: sum.splits prod.splits dest: py_truediv_Inr)

lemma map_body_Inl:
  fixes env :: "('e, 'x) env"
  assumes "map_body env u n i content page acc w = (Inl e, w')" and "i < n"
  shows "trace w' = trace w @ [BuildCall MAP_PROMPT_RESEARCH content (user_map_words u)] \<or>
         (\<exists>p. trace w' = trace w @ [BuildCall MAP_PROMPT_RESEARCH content (user_map_words u),
                                    ChatCall (map_request env u p)])"
proof -
  have "(py_truediv (int i + 1) (int n) :: 'e exn + rat) = Inr (double_div (int i + 1) (int n))"
    using assms(2) by (intro py_truediv_unit) simp_all
  with assms(1) show ?thesis
    by (auto simp: step_defs map_request_def Let_def split: sum.splits prod.splits)
qed


section \<open>The loop of the map stage\<close>

text \<open>
  Induction along a run of the loop: it is over, or the page at the front fails, or the
  page at the front completes and the loop goes on with the rest.
\<close>

lemma map_loop_result_induct [consumes 1, case_names Nil Fail Step]:
  assumes run: "map_loop env u n i pages acc w = (r, w')"
    and Nil: "\<And>i acc w. P i [] acc w (Inr acc) w"
    and Fail: "\<And>i page content rest acc w e w1.
        map_body env u n i content page acc w = (Inl e, w1) \<Longrightarrow>
        P i ((page, content) # rest) acc w (Inl e) (emit (LogError (MapError page e)) w1)"
    and Step: "\<And>i page content rest acc w acc' w1 r w'.
        map_body env u n i content page acc w = (Inr acc', w1) \<Longrightarrow>
        map_loop env u n (Suc i) rest acc' w1 = (r, w') \<Longrightarrow>
        P (Suc i) rest acc' w1 r w' \<Longrightarrow>
        P i ((page, content) # rest) acc w r w'"
  shows "P i pages acc w r w'"
  using run
proof (induction pages arbitrary: i acc w)
  case Nil
  then show ?case using assms(2) by auto
next
  case (Cons pc pages)
  obtain page content where pc: "pc = (page, content)" by (cases pc)
  obtain r1 w1 where b: "map_body env u n i content page acc w = (r1, w1)"
    by (cases "map_body env u n i content page acc w")
  show ?case
  proof (cases r1)
    case (Inl e)
    with Cons.prems pc b Fail[of i content page acc w e w1 pages] show ?thesis by auto
  next
    case (Inr acc')
    with Cons.prems pc b have l: "map_loop env u n (Suc i) pages acc' w1 = (r, w')" by simp
    from Step[OF _ l Cons.IH[OF l]] b Inr pc show ?thesis by simp
  qed
qed


lemma map_loop_append:
  "map_loop env u n i (pre @ rest) acc w =
     (case map_loop env u n i pre acc w of
        (Inl e, w1) \<Rightarrow> (Inl e, w1)
      | (Inr acc1, w1) \<Rightarrow> map_loop env u n (i + length pre) rest acc1 w1)"
proof (induction pre arbitrary: i acc w)
  case Nil
  show ?case by simp
next
  case (Cons pc pre)
  obtain page content where pc: "pc = (page, content)" by (cases pc)
  show ?case
    unfolding pc by (simp add: Cons.IH split: prod.splits sum.splits)
qed


text \<open>What every run of the loop leaves alone, whatever its outcome.\<close>

lemma map_loop_frame:
  assumes "map_loop env u n i pages acc w = (r, w')"
  shows "session_state w' = session_state w \<and>
         (\<exists>evs. trace w' = trace w @ evs \<and> list_all (\<lambda>ev. \<not> reduce_event ev) evs)"
  using assms
proof (induction rule: map_loop_result_induct)
  case (Nil i acc w)
  show ?case by simp
next
  case (Fail i page content rest acc w e w1)
  from map_body_frame[OF Fail] obtain evs where
    "session_state w1 = session_state w" "trace w1 = trace w @ evs"
    "list_all (\<lambda>ev. \<not> reduce_event ev) evs" by blast
  then have "session_state (emit (LogError (MapError page e)) w1) = session_state w \<and>
    trace (emit (LogError (MapError page e)) w1) = trace w @ (evs @ [LogError (MapError page e)]) \<and>
    list_all (\<lambda>ev. \<not> reduce_event ev) (evs @ [LogError (MapError page e)])"
    by (simp add: reduce_event_def)
  then show ?case by blast
next
  case (Step i page content rest acc w acc' w1 r w')
  from map_body_frame[OF Step(1)] obtain evs1 where a:
    "session_state w1 = session_state w" "trace w1 = trace w @ evs1"
    "list_all (\<lambda>ev. \<not> reduce_event ev) evs1" by blast
  from Step(3) obtain evs2 where b:
    "session_state w' = session_state w1" "trace w' = trace w1 @ evs2"
    "list_all (\<lambda>ev. \<not> reduce_event ev) evs2" by blast
  from a b have "session_state w' = session_state w \<and> trace w' = trace w @ (evs1 @ evs2) \<and>
    list_all (\<lambda>ev. \<not> reduce_event ev) (evs1 @ evs2)" by simp
  then show ?case by blast
qed

lemma generate_map_summaries_frame:
  assumes "generate_map_summaries env u pages w = (r, w')"
  shows "session_state w' = session_state w \<and>
         (\<exists>evs. trace w' = trace w @ evs \<and> list_all (\<lambda>ev. \<not> reduce_event ev) evs)"
  using assms unfolding generate_map_summaries_def by (rule map_loop_frame)



text \<open>
  A run of the loop, in full. It completes the first \<open>k\<close> pages: for each, in order, the
  prompt \<open>ps ! j\<close> is built from the page's text and the chat client, called in the
  external state \<open>xs ! j\<close> the page before left, answers \<open>ss ! j\<close> and leaves \<open>xs ! Suc j\<close>.
  The trace gains the events of these pages and a tail: nothing if all pages are
  complete, and else the calls made for page \<open>k\<close>, which failed, and the error record.
\<close>

lemma map_loop_run:
  fixes env :: "('e, 'x) env"
  assumes "map_loop env u n i pages acc w = (r, w')" and "i + length pages \<le> n"
  shows "\<exists>k ps ss xs tail.
           k \<le> length pages \<and> length ps = k \<and> length ss = k \<and> length xs = Suc k \<and>
           xs ! 0 = ext w \<and>
           (\<forall>j<k. build_prompt env MAP_PROMPT_RESEARCH (snd (pages ! j)) (user_map_words u)
                     = Inr (ps ! j) \<and>
                   get_chat_response env (map_request env u (ps ! j)) (xs ! j)
                     = (Inr (ss ! j), xs ! Suc j)) \<and>
           trace w' = trace w @
             concat (map (\<lambda>j. page_events env u n (i + j) (pages ! j) (ps ! j) (ss ! j)) [0..<k])
             @ tail \<and>
           (case r of
              Inr ys \<Rightarrow> k = length pages \<and> tail = [] \<and> ys = acc @ ss \<and> ext w' = xs ! k
            | Inl e \<Rightarrow> k < length pages \<and>
                (tail = [BuildCall MAP_PROMPT_RESEARCH (snd (pages ! k)) (user_map_words u),
                         LogError (MapError (fst (pages ! k)) e)] \<or>
                 (\<exists>p. tail = [BuildCall MAP_PROMPT_RESEARCH (snd (pages ! k)) (user_map_words u),
                              ChatCall (map_request env u p),
                              LogError (MapError (fst (pages ! k)) e)])))"
proof -
  define Q :: "nat \<Rightarrow> page_set \<Rightarrow> string list \<Rightarrow> ('e, 'x) world \<Rightarrow> 'e exn + string list
      \<Rightarrow> ('e, 'x) world \<Rightarrow> bool" where
    "Q = (\<lambda>i pages acc w r w'. \<exists>k ps ss xs tail.
           k \<le> length pages \<and> length ps = k \<and> length ss = k \<and> length xs = Suc k \<and>
           xs ! 0 = ext w \<and>
           (\<forall>j<k. build_prompt env MAP_PROMPT_RESEARCH (snd (pages ! j)) (user_map_words u)
                     = Inr (ps ! j) \<and>
                   get_chat_response env (map_request env u (ps ! j)) (xs ! j)
                     = (Inr (ss ! j), xs ! Suc j)) \<and>
           trace w' = trace w @
             concat (map (\<lambda>j. page_events env u n (i + j) (pages ! j) (ps ! j) (ss ! j)) [0..<k])
             @ tail \<and>
           (case r of
              Inr ys \<Rightarrow> k = length pages \<and> tail = [] \<and> ys = acc @ ss \<and> ext w' = xs ! k
            | Inl e \<Rightarrow> k < length pages \<and>
                (tail = [BuildCall MAP_PROMPT_RESEARCH (snd (pages ! k)) (user_map_words u),
                         LogError (MapError (fst (pages ! k)) e)] \<or>
                 (\<exists>p. tail = [BuildCall MAP_PROMPT_RESEARCH (snd (pages ! k)) (user_map_words u),
                              ChatCall (map_request env u p),
                              LogError (MapError (fst (pages ! k)) e)]))))"
  have "i + length pages \<le> n \<longrightarrow> Q i pages acc w r w'"
    using assms(1)
  proof (induction rule: map_loop_result_induct)
    case (Nil i acc w)
    have "Q i [] acc w (Inr acc) w"
      unfolding Q_def
      by (intro exI[of _ 0] exI[of _ "[]"] exI[of _ "[ext w]"]) simp
    then show ?case by simp
  next
    case (Fail i page content rest acc w e w1)
    show ?case
    proof
      assume "i + length ((page, content) # rest) \<le> n"
      then have "i < n" by simp
      from map_body_Inl[OF Fail this]
      have "trace (emit (LogError (MapError page e)) w1) = trace w @
              [BuildCall MAP_PROMPT_RESEARCH content (user_map_words u),
               LogError (MapError page e)] \<or>
            (\<exists>p. trace (emit (LogError (MapError page e)) w1) = trace w @
              [BuildCall MAP_PROMPT_RESEARCH content (user_map_words u),
               ChatCall (map_request env u p), LogError (MapError page e)])"
        by auto
      then show "Q i ((page, content) # rest) acc w (Inl e) (emit (LogError (MapError page e)) w1)"
        unfolding Q_def
        by (elim disjE exE)
          ((intro exI[of _ 0] exI[of _ "[]"] exI[of _ "[ext w]"] exI
              [of _ "[BuildCall MAP_PROMPT_RESEARCH content (user_map_words u),
                      LogError (MapError page e)]"], simp),
           (rule exI[of _ 0], rule exI[of _ "[]"], rule exI[of _ "[]"], rule exI[of _ "[ext w]"],
            rule exI, simp, blast))
    qed
  next
    case (Step i page content rest acc w acc' w1 r w')
    show ?case
    proof
      assume len: "i + length ((page, content) # rest) \<le> n"
      then have "Suc i + length rest \<le> n" by simp
      with Step(3) have "Q (Suc i) rest acc' w1 r w'" by simp
      then obtain k ps ss xs tail where ih:
        "k \<le> length rest" "length ps = k" "length ss = k" "length xs = Suc k"
        "xs ! 0 = ext w1"
        "\<forall>j<k. build_prompt env MAP_PROMPT_RESEARCH (snd (rest ! j)) (user_map_words u)
                  = Inr (ps ! j) \<and>
                get_chat_response env (map_request env u (ps ! j)) (xs ! j)
                  = (Inr (ss ! j), xs ! Suc j)"
        "trace w' = trace w1 @
           concat (map (\<lambda>j. page_events env u n (Suc i + j) (rest ! j) (ps ! j) (ss ! j)) [0..<k])
           @ tail"
        "(case r of
            Inr ys \<Rightarrow> k = length rest \<and> tail = [] \<and> ys = acc' @ ss \<and> ext w' = xs ! k
          | Inl e \<Rightarrow> k < length rest \<and>
              (tail = [BuildCall MAP_PROMPT_RESEARCH (snd (rest ! k)) (user_map_words u),
                       LogError (MapError (fst (rest ! k)) e)] \<or>
               (\<exists>p. tail = [BuildCall MAP_PROMPT_RESEARCH (snd (rest ! k)) (user_map_words u),
                            ChatCall (map_request env u p),
                            LogError (MapError (fst (rest ! k)) e)])))"
        unfolding Q_def by blast
      from map_body_Inr[OF Step(1)] obtain p s where b:
        "build_prompt env MAP_PROMPT_RESEARCH content (user_map_words u) = Inr p"
        "get_chat_response env (map_request env u p) (ext w) = (Inr s, ext w1)"
        "acc' = acc @ [s]"
        "trace w1 = trace w @ page_events env u n i (page, content) p s"
        by metis
      let ?pages = "(page, content) # rest"
      let ?ps = "p # ps" and ?ss = "s # ss" and ?xs = "ext w # xs"
      have calls: "\<forall>j<Suc k.
          build_prompt env MAP_PROMPT_RESEARCH (snd (?pages ! j)) (user_map_words u)
            = Inr (?ps ! j) \<and>
          get_chat_response env (map_request env u (?ps ! j)) (?xs ! j)
            = (Inr (?ss ! j), ?xs ! Suc j)"
      proof (intro allI impI)
        fix j assume j: "j < Suc k"
        show "build_prompt env MAP_PROMPT_RESEARCH (snd (?pages ! j)) (user_map_words u)
            = Inr (?ps ! j) \<and>
          get_chat_response env (map_request env u (?ps ! j)) (?xs ! j)
            = (Inr (?ss ! j), ?xs ! Suc j)"
        proof (cases j)
          case 0
          with b(1,2) ih(5) show ?thesis by simp
        next
          case (Suc j')
          with j have "j' < k" by simp
          with ih(6) Suc show ?thesis by simp
        qed
      qed
      have tr: "trace w' = trace w @
           concat (map (\<lambda>j. page_events env u n (i + j) (?pages ! j) (?ps ! j) (?ss ! j))
                     [0..<Suc k])
           @ tail"
        unfolding upt_0_Suc_shift using ih(7) b(4) by (simp add: comp_def del: upt_Suc)
      have res: "(case r of
            Inr ys \<Rightarrow> Suc k = length ?pages \<and> tail = [] \<and> ys = acc @ ?ss \<and> ext w' = ?xs ! Suc k
          | Inl e \<Rightarrow> Suc k < length ?pages \<and>
              (tail = [BuildCall MAP_PROMPT_RESEARCH (snd (?pages ! Suc k)) (user_map_words u),
                       LogError (MapError (fst (?pages ! Suc k)) e)] \<or>
               (\<exists>p. tail = [BuildCall MAP_PROMPT_RESEARCH (snd (?pages ! Suc k)) (user_map_words u),
                            ChatCall (map_request env u p),
                            LogError (MapError (fst (?pages ! Suc k)) e)])))"
        using ih(8) b(3) by (cases r) simp_all
      have "Suc k \<le> length ?pages" "length ?ps = Suc k" "length ?ss = Suc k"
        "length ?xs = Suc (Suc k)" "?xs ! 0 = ext w"
        using ih(1-4) by simp_all
      with calls tr res show "Q i ?pages acc w r w'"
        unfolding Q_def by blast
    qed
  qed
  with assms(2) show ?thesis unfolding Q_def by blast
qed

text \<open>The map stage raises only what a collaborator raised: the division never raises.\<close>

lemma map_body_raises:
  fixes env :: "('e, 'x) env"
  assumes "map_body env u n i content page acc w = (Inl e, w')" and "i < n"
  shows "\<exists>e'. e = Raised e'"
proof -
  have "(py_truediv (int i + 1) (int n) :: 'e exn + rat) = Inr (double_div (int i + 1) (int n))"
    using assms(2) by (intro py_truediv_unit) simp_all
  with assms(1) show ?thesis
    by (auto simp: step_defs Let_def split: sum.splits prod.splits)
qed

lemma generate_map_summaries_raises:
  assumes "generate_map_summaries env u pages w = (Inl e, w')"
  shows "\<exists>e'. e = Raised e'"
proof -
  have "i + length pages \<le> n \<longrightarrow> (\<forall>e. r = Inl e \<longrightarrow> (\<exists>e'. e = Raised e'))"
    if "map_loop env u n i pages acc w = (r, w')" for n i acc r
    using that
  proof (induction rule: map_loop_result_induct)
    case (Fail i page content rest acc w e w1)
    show ?case
    proof (intro impI allI)
      fix e0 assume "i + length ((page, content) # rest) \<le> n" and "Inl e = Inl e0"
      then have "i < n" "e0 = e" by simp_all
      with map_body_raises[OF Fail] show "\<exists>e'. e0 = Raised e'" by simp
    qed
  qed simp_all
  from this[of "length pages" 0 "[]" "Inl e"] assms show ?thesis
    by (simp add: generate_map_summaries_def)
qed

lemmas stub_defs = stub_env_def ok_env_def no_template_env_def stub_ui_def stub_world_def
  generate_map_summaries_def step_defs Let_def emit_def user_system_message_def
  mode_settings_def double_eval

section \<open>Extraction, the reduce stage and the script\<close>

lemma process_pdf_eq:
  "process_pdf env path s e w =
     (case extract_pages_text env path s e (ext w) of
        (Inl err, x) \<Rightarrow>
          (Inl (Raised err),
           w\<lparr>ext := x,
             trace := trace w @ [ExtractCall path s e, LogError (PdfError (Raised err))]\<rparr>)
      | (Inr pages, x) \<Rightarrow>
          (Inr pages,
           w\<lparr>ext := x,
             trace := trace w @ [ExtractCall path s e, LogInfo (PagesLoaded (length pages))]\<rparr>))"
  by (simp add: process_pdf_def call_extract_def emit_def Let_def split: prod.splits sum.splits)

lemma process_pdf_spec:
  assumes "process_pdf env path s e w = (r, w')"
  shows "session_state w' = session_state w \<and>
         (\<exists>evs. trace w' = trace w @ ExtractCall path s e # evs \<and>
                list_all (\<lambda>ev. \<not> reduce_event ev) (ExtractCall path s e # evs))"
  using assms
  by (auto simp: process_pdf_eq reduce_event_def split: prod.splits sum.splits)

lemma generate_reduce_summary_spec:
  assumes "generate_reduce_summary env u ms w = (r, w')"
  shows "session_state w' = session_state w \<and>
         (\<exists>evs. trace w' = trace w @
            BuildCall REDUCE_PROMPT_RESEARCH (reduce_text ms) (user_reduce_words u) # evs)"
  using assms
  by (auto simp: generate_reduce_summary_def reduce_body_def call_build_def call_chat_def
        Let_def split: prod.splits sum.splits)

lemma init_session_simps [simp]:
  "trace (init_session w) = trace w" "ext (init_session w) = ext w"
  by (simp_all add: init_session_def)

lemma call_write_None:
  assumes "call_write env path data w = (None, w')"
  shows "trace w' = trace w @ [WriteFile path data]" "session_state w' = session_state w"
    "write_file env path data (ext w) = (None, ext w')"
  using assms
  by (auto simp: call_write_def Let_def split: prod.splits option.splits)

section \<open>Joining and replacing\<close>

lemma str_replace_filter:
  assumes "old \<noteq> []" and "filter P old = []" and "filter P new = []"
  shows "filter P (str_replace old new s) = filter P s"
  using assms
proof (induction old new s rule: str_replace.induct)
  case (1 old new)
  then show ?case by simp
next
  case (2 old new c cs)
  show ?case
  proof (cases "prefix old (c # cs)")
    case True
    then have split: "c # cs = old @ drop (length old) (c # cs)"
      by (metis append_eq_conv_conj prefix_def)
    have "filter P (str_replace old new (c # cs)) =
            filter P (str_replace old new (drop (length old) (c # cs)))"
      using True "2.prems" by simp
    also have "\<dots> = filter P (drop (length old) (c # cs))"
      using "2.IH"(2) "2.prems" True by simp
    also have "\<dots> = filter P (old @ drop (length old) (c # cs))"
      using "2.prems"(2) by simp
    finally show ?thesis using split by simp
  next
    case False
    with "2.IH"(3) "2.prems" show ?thesis by simp
  qed
qed

lemma str_join_filter:
  "filter P sep = [] \<Longrightarrow> filter P (str_join sep xs) = filter P (concat xs)"
  by (induction sep xs rule: str_join.induct) simp_all

lemma str_replace_no_old:
  assumes "old = ''\<newline>\<newline>''" and "new = []"
  shows "\<not> sublist old (str_replace old new s)"
  using assms
proof (induction old new s rule: str_replace.induct)
  case (1 old new)
  then show ?case by simp
next
  case (2 old new c cs)
  show ?case
  proof (cases "prefix old (c # cs)")
    case True
    have ne: "old \<noteq> []" using "2.prems"(1) by simp
    have "\<not> sublist old (str_replace old new (drop (length old) (c # cs)))"
      by (rule "2.IH"(2)[OF ne True "2.prems"])
    moreover have "str_replace old new (c # cs) =
        new @ str_replace old new (drop (length old) (c # cs))"
      using ne True by (simp only: str_replace.simps if_False if_True)
    ultimately show ?thesis using "2.prems"(2) by (metis append_Nil)
  next
    case False
    have ne: "old \<noteq> []" using "2.prems"(1) by simp
    have r: "str_replace old new (c # cs) = c # str_replace old new cs"
      using ne False by (simp only: str_replace.simps if_False)
    have ih: "\<not> sublist old (str_replace old new cs)"
      by (rule "2.IH"(3)[OF ne False "2.prems"])
    have "\<not> prefix old (c # str_replace old new cs)"
    proof (cases cs)
      case Nil
      then show ?thesis using "2.prems" by simp
    next
      case (Cons d ds)
      with False "2.prems" have "c \<noteq> CHR ''\<newline>'' \<or> d \<noteq> CHR ''\<newline>''" by auto
      then show ?thesis using Cons "2.prems" by auto
    qed
    with ih r show ?thesis by (simp add: sublist_Cons_right)
  qed
qed

lemma str_replace_no_doubled_newline:
  "\<not> sublist ''\<newline>\<newline>'' (str_replace ''\<newline>\<newline>'' [] s)"
  by (rule str_replace_no_old) simp_all

section \<open>The empty PageSet\<close>

text \<open>
  Claim C10. For the empty PageSet the map stage returns the empty sequence and leaves the
  state as it was, so it raises nothing and reports no progress. The division
  \<^verbatim>\<open>(i + 1) / total_pages\<close> is evaluated only inside the loop, where \<^verbatim>\<open>total_pages\<close> is
  at least 1: for no PageSet does the map stage raise \<^verbatim>\<open>ZeroDivisionError\<close>.
\<close>

theorem map_stage_empty_page_set:
  "generate_map_summaries env u [] w = (Inr [], w) \<and>
   fst (generate_map_summaries env u pages w) \<noteq> Inl ZeroDivisionError"
proof
  show "generate_map_summaries env u [] w = (Inr [], w)"
    by (simp add: generate_map_summaries_def)
  show "fst (generate_map_summaries env u pages w) \<noteq> Inl ZeroDivisionError"
  proof (cases pages)
    case Nil
    then show ?thesis by (simp add: generate_map_summaries_def)
  next
    case (Cons pc rest)
    then have n: "0 < length pages" by simp
    obtain r w' where run: "map_loop env u (length pages) 0 pages [] w = (r, w')"
      by (cases "map_loop env u (length pages) 0 pages [] w")
    have "r \<noteq> Inl ZeroDivisionError"
      using run
    proof (induction rule: map_loop_result_induct)
      case (Fail i page content rest acc w e w1)
      from map_body_no_zero_div[OF Fail n] show ?case by simp
    qed simp_all
    with run show ?thesis by (simp add: generate_map_summaries_def)
  qed
qed

section \<open>The number of map summaries\<close>




section \<open>Progress of the map stage\<close>

text \<open>
  Claim C7. Every run of the map stage goes like this. It completes the first \<open>k\<close> pages
  of the PageSet, in order: for each, the prompt is built from the page's text, the chat
  client is called and answers, the summary is logged, and then, as the last event of
  the page, the progress bar is set to the float \<^verbatim>\<open>(index + 1) / total_pages\<close>. These are
  all the events of the run, but for the calls made for a page that fails and the error
  record; so no progress is reported before the first page is complete. If the run
  returns a sequence, every page is complete, and for a non-empty PageSet the last event
  of the run sets the bar to 1.
\<close>

theorem map_stage_progress:
  assumes "generate_map_summaries env u pages w = (r, w')"
  shows "\<exists>k ps ss xs tail.
           k \<le> length pages \<and> length ps = k \<and> length ss = k \<and> length xs = Suc k \<and>
           xs ! 0 = ext w \<and>
           (\<forall>j<k. build_prompt env MAP_PROMPT_RESEARCH (snd (pages ! j)) (user_map_words u)
                     = Inr (ps ! j) \<and>
                   get_chat_response env (map_request env u (ps ! j)) (xs ! j)
                     = (Inr (ss ! j), xs ! Suc j)) \<and>
           trace w' = trace w @
             concat (map (\<lambda>j. page_events env u (length pages) j (pages ! j) (ps ! j) (ss ! j))
                       [0..<k])
             @ tail \<and>
           (case r of
              Inr ys \<Rightarrow> k = length pages \<and> tail = [] \<and> ys = ss
            | Inl e \<Rightarrow> k < length pages \<and>
                (tail = [BuildCall MAP_PROMPT_RESEARCH (snd (pages ! k)) (user_map_words u),
                         LogError (MapError (fst (pages ! k)) e)] \<or>
                 (\<exists>p. tail = [BuildCall MAP_PROMPT_RESEARCH (snd (pages ! k)) (user_map_words u),
                              ChatCall (map_request env u p),
                              LogError (MapError (fst (pages ! k)) e)]))) \<and>
           (k = length pages \<and> pages \<noteq> [] \<longrightarrow> last (trace w') = Progress 1)"
proof -
  from assms have run: "map_loop env u (length pages) 0 pages [] w = (r, w')"
    by (simp add: generate_map_summaries_def)
  have le: "0 + length pages \<le> length pages" by simp
  from map_loop_run[OF run le] obtain k ps ss xs tail where s:
    "k \<le> length pages" "length ps = k" "length ss = k" "length xs = Suc k" "xs ! 0 = ext w"
    "\<forall>j<k. build_prompt env MAP_PROMPT_RESEARCH (snd (pages ! j)) (user_map_words u)
              = Inr (ps ! j) \<and>
            get_chat_response env (map_request env u (ps ! j)) (xs ! j)
              = (Inr (ss ! j), xs ! Suc j)"
    "trace w' = trace w @
       concat (map (\<lambda>j. page_events env u (length pages) (0 + j) (pages ! j) (ps ! j) (ss ! j))
                 [0..<k])
       @ tail"
    "(case r of
        Inr ys \<Rightarrow> k = length pages \<and> tail = [] \<and> ys = [] @ ss \<and> ext w' = xs ! k
      | Inl e \<Rightarrow> k < length pages \<and>
          (tail = [BuildCall MAP_PROMPT_RESEARCH (snd (pages ! k)) (user_map_words u),
                   LogError (MapError (fst (pages ! k)) e)] \<or>
           (\<exists>p. tail = [BuildCall MAP_PROMPT_RESEARCH (snd (pages ! k)) (user_map_words u),
                        ChatCall (map_request env u p),
                        LogError (MapError (fst (pages ! k)) e)])))"
    by blast
  let ?f = "\<lambda>j. page_events env u (length pages) j (pages ! j) (ps ! j) (ss ! j)"
  have tr: "trace w' = trace w @ concat (map ?f [0..<k]) @ tail"
    using s(7) by simp
  have res: "(case r of
        Inr ys \<Rightarrow> k = length pages \<and> tail = [] \<and> ys = ss
      | Inl e \<Rightarrow> k < length pages \<and>
          (tail = [BuildCall MAP_PROMPT_RESEARCH (snd (pages ! k)) (user_map_words u),
                   LogError (MapError (fst (pages ! k)) e)] \<or>
           (\<exists>p. tail = [BuildCall MAP_PROMPT_RESEARCH (snd (pages ! k)) (user_map_words u),
                        ChatCall (map_request env u p),
                        LogError (MapError (fst (pages ! k)) e)])))"
    using s(8) by (cases r) simp_all
  have l: "last (trace w') = Progress 1" if "k = length pages" "pages \<noteq> []"
  proof -
    from that have "0 < k" by simp
    then obtain k' where k': "k = Suc k'" using gr0_conv_Suc by blast
    have t: "tail = []" using s(8) that(1) by (cases r) simp_all
    have "concat (map ?f [0..<Suc k']) = concat (map ?f [0..<k']) @ ?f k'" by simp
    then have "last (trace w') = last (?f k')"
      using tr k' t by (simp add: page_events_def)
    moreover have "int k' + 1 = int (length pages)" using k' that(1) by simp
    ultimately show ?thesis using that(2) by (simp add: page_events_def double_div_self)
  qed
  from s(1-6) tr res l show ?thesis by blast
qed



theorem map_stage_progress_witness:
  "trace (snd (generate_map_summaries ok_env (stub_ui General 1 3)
                 [(1, ''a''), (2, ''b''), (3, ''c'')] (stub_world None)))
     = [BuildCall MAP_PROMPT_RESEARCH ''a'' 150,
        ChatCall (map_request ok_env (stub_ui General 1 3) ''a''),
        LogInfo (MapSummary 1 ''Summary of a''),
        Progress (6004799503160661 / 18014398509481984),
        BuildCall MAP_PROMPT_RESEARCH ''b'' 150,
        ChatCall (map_request ok_env (stub_ui General 1 3) ''b''),
        LogInfo (MapSummary 2 ''Summary of b''),
        Progress (6004799503160661 / 9007199254740992),
        BuildCall MAP_PROMPT_RESEARCH ''c'' 150,
        ChatCall (map_request ok_env (stub_ui General 1 3) ''c''),
        LogInfo (MapSummary 3 ''Summary of c''),
        Progress 1] \<and>
   last (trace (snd (generate_map_summaries ok_env (stub_ui General 1 3)
                 [(1, ''a''), (2, ''b''), (3, ''c'')] (stub_world None))))
     = Progress 1"
proof
  let ?pages = "[(1 :: int, ''a''), (2, ''b''), (3, ''c'')]"
  let ?run = "generate_map_summaries ok_env (stub_ui General 1 3) ?pages (stub_world None)"
  show "trace (snd ?run)
     = [BuildCall MAP_PROMPT_RESEARCH ''a'' 150,
        ChatCall (map_request ok_env (stub_ui General 1 3) ''a''),
        LogInfo (MapSummary 1 ''Summary of a''),
        Progress (6004799503160661 / 18014398509481984),
        BuildCall MAP_PROMPT_RESEARCH ''b'' 150,
        ChatCall (map_request ok_env (stub_ui General 1 3) ''b''),
        LogInfo (MapSummary 2 ''Summary of b''),
        Progress (6004799503160661 / 9007199254740992),
        BuildCall MAP_PROMPT_RESEARCH ''c'' 150,
        ChatCall (map_request ok_env (stub_ui General 1 3) ''c''),
        LogInfo (MapSummary 3 ''Summary of c''),
        Progress 1]"
    by (simp add: stub_defs map_request_def)
  have "fst ?run = Inr [''Summary of a'', ''Summary of b'', ''Summary of c'']"
    by (simp add: stub_defs)
  then have run: "?run = (Inr [''Summary of a'', ''Summary of b'', ''Summary of c''], snd ?run)"
    by (metis surjective_pairing)
  from map_stage_progress[OF run] obtain k where
    "k = length ?pages"
    "k = length ?pages \<and> ?pages \<noteq> [] \<longrightarrow> last (trace (snd ?run)) = Progress 1"
    by auto
  then show "last (trace (snd ?run)) = Progress 1" by simp
qed

section \<open>Order of the map summaries\<close>

text \<open>
  Claim C4, as the code has it. The map stage does not sort: it follows the iteration
  order of the PageSet it is given. When it returns a sequence, the string at each index
  is the answer of the chat client to the prompt built from the text of the page at that
  index of the iteration, the calls being made in that order, each in the external state
  the call before left; and the events of the run are those of the pages in that order,
  each summary logged with its page number. So the returned sequence is in ascending
  page order when, and only as far as, the PageSet iterates in ascending page order.
\<close>

theorem map_stage_order:
  assumes "generate_map_summaries env u pages w = (Inr ys, w')"
  shows "length ys = length pages \<and>
         (\<exists>ps xs. length ps = length pages \<and> length xs = Suc (length pages) \<and>
            xs ! 0 = ext w \<and> xs ! length pages = ext w' \<and>
            (\<forall>i<length pages.
                build_prompt env MAP_PROMPT_RESEARCH (snd (pages ! i)) (user_map_words u)
                  = Inr (ps ! i) \<and>
                get_chat_response env (map_request env u (ps ! i)) (xs ! i)
                  = (Inr (ys ! i), xs ! Suc i)) \<and>
            trace w' = trace w @
              concat (map (\<lambda>i. page_events env u (length pages) i (pages ! i) (ps ! i) (ys ! i))
                        [0..<length pages]))"
proof -
  from assms have run: "map_loop env u (length pages) 0 pages [] w = (Inr ys, w')"
    by (simp add: generate_map_summaries_def)
  have le: "0 + length pages \<le> length pages" by simp
  from map_loop_run[OF run le] obtain k ps ss xs tail where s:
    "length ps = k" "length ss = k" "length xs = Suc k" "xs ! 0 = ext w"
    "\<forall>j<k. build_prompt env MAP_PROMPT_RESEARCH (snd (pages ! j)) (user_map_words u)
              = Inr (ps ! j) \<and>
            get_chat_response env (map_request env u (ps ! j)) (xs ! j)
              = (Inr (ss ! j), xs ! Suc j)"
    "trace w' = trace w @
       concat (map (\<lambda>j. page_events env u (length pages) (0 + j) (pages ! j) (ps ! j) (ss ! j))
                 [0..<k])
       @ tail"
    "k = length pages \<and> tail = [] \<and> ys = [] @ ss \<and> ext w' = xs ! k"
    by auto
  from s(7) have k: "k = length pages" and t: "tail = []" and y: "ys = ss"
    and x: "ext w' = xs ! k" by simp_all
  have "length ys = length pages" using s(2) k y by simp
  moreover have "length ps = length pages" "length xs = Suc (length pages)"
    "xs ! length pages = ext w'"
    using s(1,3) k x by simp_all
  moreover have "\<forall>i<length pages.
      build_prompt env MAP_PROMPT_RESEARCH (snd (pages ! i)) (user_map_words u) = Inr (ps ! i) \<and>
      get_chat_response env (map_request env u (ps ! i)) (xs ! i) = (Inr (ys ! i), xs ! Suc i)"
    using s(5) k y by simp
  moreover have "trace w' = trace w @
      concat (map (\<lambda>i. page_events env u (length pages) i (pages ! i) (ps ! i) (ys ! i))
                [0..<length pages])"
    using s(6) k t y by simp
  ultimately show ?thesis using s(4) by blast
qed

theorem map_stage_order_witness:
  "fst (generate_map_summaries ok_env (stub_ui General 1 2)
          [(1, ''Intro text.''), (2, ''Methods text.'')] (stub_world None))
     = Inr [''Summary of Intro text.'', ''Summary of Methods text.''] \<and>
   (\<exists>ps xs. length ps = length [(1 :: int, ''Intro text.''), (2, ''Methods text.'')] \<and>
      xs ! 0 = ext (stub_world None) \<and>
      (\<forall>i<length [(1 :: int, ''Intro text.''), (2, ''Methods text.'')].
          build_prompt ok_env MAP_PROMPT_RESEARCH
              (snd ([(1 :: int, ''Intro text.''), (2, ''Methods text.'')] ! i))
              (user_map_words (stub_ui General 1 2))
            = Inr (ps ! i) \<and>
          get_chat_response ok_env (map_request ok_env (stub_ui General 1 2) (ps ! i)) (xs ! i)
            = (Inr ([''Summary of Intro text.'', ''Summary of Methods text.''] ! i), xs ! Suc i)))"
proof -
  let ?pages = "[(1 :: int, ''Intro text.''), (2, ''Methods text.'')]"
  let ?run = "generate_map_summaries ok_env (stub_ui General 1 2) ?pages (stub_world None)"
  have r: "fst ?run = Inr [''Summary of Intro text.'', ''Summary of Methods text.'']"
    by (simp add: stub_defs)
  then have run: "?run = (Inr [''Summary of Intro text.'', ''Summary of Methods text.''], snd ?run)"
    by (metis surjective_pairing)
  from map_stage_order[OF run] r show ?thesis by blast
qed

theorem map_stage_order_counterexample:
  "generate_map_summaries ok_env (stub_ui General 1 2)
      [(2, ''Methods text.''), (1, ''Intro text.'')] (stub_world None)
     = (Inr [''Summary of Methods text.'', ''Summary of Intro text.''],
        \<lparr>ext = 2,
         trace = [BuildCall MAP_PROMPT_RESEARCH ''Methods text.'' 150,
                  ChatCall (map_request ok_env (stub_ui General 1 2) ''Methods text.''),
                  LogInfo (MapSummary 2 ''Summary of Methods text.''),
                  Progress (1 / 2),
                  BuildCall MAP_PROMPT_RESEARCH ''Intro text.'' 150,
                  ChatCall (map_request ok_env (stub_ui General 1 2) ''Intro text.''),
                  LogInfo (MapSummary 1 ''Summary of Intro text.''),
                  Progress 1],
         session_state = session_state (stub_world None)\<rparr>) \<and>
   fst (generate_map_summaries ok_env (stub_ui General 1 2)
      [(1, ''Intro text.''), (2, ''Methods text.'')] (stub_world None))
     = Inr [''Summary of Intro text.'', ''Summary of Methods text.'']"
  by (simp add: stub_defs map_request_def)

section \<open>A page whose completion call fails\<close>

text \<open>
  Claim C3, as the code has it. Let the loop have completed the pages \<open>pre\<close>, and let the
  chat client raise \<open>e\<close> for the next page. Then the map stage returns no sequence: it
  raises the client's exception \<open>e\<close> itself, unchanged, and the pages after it are not
  touched. The page number is not attached to the exception; it is written to the error
  log, in the last record of the run.
\<close>

theorem map_stage_fails_fast:
  assumes "map_loop env u (length (pre @ (page, content) # post)) 0 pre [] w = (Inr done, w1)"
    and "build_prompt env MAP_PROMPT_RESEARCH content (user_map_words u) = Inr p"
    and "get_chat_response env (map_request env u p) (ext w1) = (Inl e, x)"
  shows "\<exists>w'. generate_map_summaries env u (pre @ (page, content) # post) w = (Inl (Raised e), w') \<and>
           trace w' = trace w1 @
             [BuildCall MAP_PROMPT_RESEARCH content (user_map_words u),
              ChatCall (map_request env u p),
              LogError (MapError page (Raised e))] \<and>
           ext w' = x \<and> session_state w' = session_state w1"
  using assms
  by (simp add: generate_map_summaries_def map_loop_append step_defs map_request_def Let_def)

theorem map_stage_fails_fast_witness:
  "\<exists>w'. generate_map_summaries (stub_env []) (stub_ui General 1 3)
           ([(1, ''good'')] @ (2, ''bad'') # [(3, ''more'')]) (stub_world None)
         = (Inl (Raised ''CompletionError''), w') \<and>
        trace w' =
          [BuildCall MAP_PROMPT_RESEARCH ''good'' 150,
           ChatCall (map_request (stub_env []) (stub_ui General 1 3) ''good''),
           LogInfo (MapSummary 1 ''Summary of good''),
           Progress (6004799503160661 / 18014398509481984),
           BuildCall MAP_PROMPT_RESEARCH ''bad'' 150,
           ChatCall (map_request (stub_env []) (stub_ui General 1 3) ''bad''),
           LogError (MapError 2 (Raised ''CompletionError''))]"
proof -
  let ?env = "stub_env []" and ?u = "stub_ui General 1 3"
  let ?w1 = "\<lparr>ext = Suc 0,
              trace = [BuildCall MAP_PROMPT_RESEARCH ''good'' 150,
                       ChatCall (map_request ?env ?u ''good''),
                       LogInfo (MapSummary 1 ''Summary of good''),
                       Progress (6004799503160661 / 18014398509481984)],
              session_state = (\<lambda>k. if k = ''final_summary'' then None else None)\<rparr>
            :: (string, nat) world"
  have a: "map_loop ?env ?u (length ([(1, ''good'')] @ (2, ''bad'') # [(3, ''more'')])) 0
             [(1, ''good'')] [] (stub_world None) = (Inr [''Summary of good''], ?w1)"
    by (simp add: stub_defs map_request_def)
  have b: "build_prompt ?env MAP_PROMPT_RESEARCH ''bad'' (user_map_words ?u) = Inr ''bad''"
    by (simp add: stub_defs)
  have c: "get_chat_response ?env (map_request ?env ?u ''bad'') (ext ?w1)
             = (Inl ''CompletionError'', Suc (Suc 0))"
    by (simp add: stub_defs map_request_def)
  from map_stage_fails_fast[OF a b c] show ?thesis
    by (auto simp: stub_ui_def)
qed

theorem map_stage_failure_counterexample:
  "fst (generate_map_summaries (stub_env []) (stub_ui General 1 3)
          [(1, ''good''), (2, ''bad''), (3, ''more'')] (stub_world None))
     = Inl (Raised ''CompletionError'') \<and>
   fst (generate_map_summaries (stub_env []) (stub_ui General 1 3)
          [(5, ''bad'')] (stub_world None))
     = Inl (Raised ''CompletionError'') \<and>
   last (trace (snd (generate_map_summaries (stub_env []) (stub_ui General 1 3)
          [(1, ''good''), (2, ''bad''), (3, ''more'')] (stub_world None))))
     = LogError (MapError 2 (Raised ''CompletionError'')) \<and>
   last (trace (snd (generate_map_summaries (stub_env []) (stub_ui General 1 3)
          [(5, ''bad'')] (stub_world None))))
     = LogError (MapError 5 (Raised ''CompletionError''))"
  by (simp add: stub_defs)

section \<open>A failure of the map stage ends the run\<close>

text \<open>
  Claim C8. Take an execution of the script in which the button handler runs, the page
  extractor returns a PageSet and the map stage raises \<open>e\<close>, reaching the state \<open>w2\<close>.
  Then the execution ends in \<open>w2\<close> with the error shown in the status line and nothing
  else: no event of the reduce stage (no prompt built from the reduce template, no call
  to the reduce model, no reduce log record) occurs anywhere in the execution.
\<close>

theorem map_failure_skips_reduce:
  assumes "uploaded_file u = Some data" and "button u"
    and "call_write env TEMP_PDF_PATH data (init_session w) = (None, wa)"
    and "process_pdf env TEMP_PDF_PATH (user_start_page u) (user_end_page u)
           (emit (ProgressCreate 0) wa) = (Inr pages, w1)"
    and "generate_map_summaries env u pages
           (emit (StatusInfo ''Step 1: Generating map summaries...'') w1) = (Inl e, w2)"
  shows "script env u w = (None, emit (StatusError e) w2) \<and>
         (\<exists>evs. trace (snd (script env u w)) = trace w @ evs \<and>
                list_all (\<lambda>ev. \<not> reduce_event ev) evs)"
proof
  show run: "script env u w = (None, emit (StatusError e) w2)"
    using assms by (simp add: script_def on_click_def try_block_def Let_def)
  from call_write_None[OF assms(3)] have a: "trace wa = trace w @ [WriteFile TEMP_PDF_PATH data]"
    by simp
  from process_pdf_spec[OF assms(4)] obtain evs1 where b:
    "trace w1 = trace wa @ [ProgressCreate 0] @ ExtractCall TEMP_PDF_PATH (user_start_page u) (user_end_page u) # evs1"
    "list_all (\<lambda>ev. \<not> reduce_event ev)
       (ExtractCall TEMP_PDF_PATH (user_start_page u) (user_end_page u) # evs1)"
    by auto
  from generate_map_summaries_frame[OF assms(5)] obtain evs2 where c:
    "trace w2 = trace w1 @ [StatusInfo ''Step 1: Generating map summaries...''] @ evs2"
    "list_all (\<lambda>ev. \<not> reduce_event ev) evs2"
    by auto
  let ?evs = "[WriteFile TEMP_PDF_PATH data, ProgressCreate 0] @
     (ExtractCall TEMP_PDF_PATH (user_start_page u) (user_end_page u) # evs1) @
     [StatusInfo ''Step 1: Generating map summaries...''] @ evs2 @ [StatusError e]"
  have "trace (snd (script env u w)) = trace w @ ?evs"
    using run a b(1) c(1) by simp
  moreover have "list_all (\<lambda>ev. \<not> reduce_event ev) ?evs"
    using b(2) c(2) by (simp add: reduce_event_def)
  ultimately show "\<exists>evs. trace (snd (script env u w)) = trace w @ evs \<and>
                list_all (\<lambda>ev. \<not> reduce_event ev) evs"
    by blast
qed


theorem map_failure_skips_reduce_witness:
  "script (stub_env [(1, ''good''), (2, ''bad'')]) (stub_ui General 1 2) (stub_world None)
     = (None,
        emit (StatusError (Raised ''CompletionError''))
          (snd (generate_map_summaries (stub_env [(1, ''good''), (2, ''bad'')])
                  (stub_ui General 1 2) [(1, ''good''), (2, ''bad'')]
                  (emit (StatusInfo ''Step 1: Generating map summaries...'')
                     (snd (process_pdf (stub_env [(1, ''good''), (2, ''bad'')]) TEMP_PDF_PATH 1 2
                        (emit (ProgressCreate 0)
                           (snd (call_write (stub_env [(1, ''good''), (2, ''bad'')])
                                   TEMP_PDF_PATH ''%PDF''
                                   (init_session (stub_world None)))))))))))
   \<and> (\<exists>evs. trace (snd (script (stub_env [(1, ''good''), (2, ''bad'')]) (stub_ui General 1 2)
                           (stub_world None)))
              = trace (stub_world None) @ evs \<and>
             list_all (\<lambda>ev. \<not> reduce_event ev) evs)"
proof -
  let ?env = "stub_env [(1, ''good''), (2, ''bad'')]" and ?u = "stub_ui General 1 2"
  let ?w = "stub_world None"
  let ?wa = "snd (call_write ?env TEMP_PDF_PATH ''%PDF'' (init_session ?w))"
  let ?w1 = "snd (process_pdf ?env TEMP_PDF_PATH 1 2 (emit (ProgressCreate 0) ?wa))"
  let ?w2 = "snd (generate_map_summaries ?env ?u [(1, ''good''), (2, ''bad'')]
                   (emit (StatusInfo ''Step 1: Generating map summaries...'') ?w1))"
  have 1: "uploaded_file ?u = Some ''%PDF''" and 2: "button ?u"
    by (simp_all add: stub_ui_def)
  have 3: "call_write ?env TEMP_PDF_PATH ''%PDF'' (init_session ?w) = (None, ?wa)"
    by (simp add: stub_defs init_session_def)
  have 4: "process_pdf ?env TEMP_PDF_PATH (user_start_page ?u) (user_end_page ?u)
             (emit (ProgressCreate 0) ?wa) = (Inr [(1, ''good''), (2, ''bad'')], ?w1)"
    by (simp add: stub_defs init_session_def process_pdf_def)
  have 5: "generate_map_summaries ?env ?u [(1, ''good''), (2, ''bad'')]
             (emit (StatusInfo ''Step 1: Generating map summaries...'') ?w1)
           = (Inl (Raised ''CompletionError''), ?w2)"
    by (simp add: stub_defs init_session_def process_pdf_def)
  from map_failure_skips_reduce[OF 1 2 3 4 5] show ?thesis .
qed

section \<open>The stored final summary\<close>

text \<open>
  Claim C9. Take an execution of the script in which the button handler runs. If the
  extraction, the map stage or the reduce stage raises, the execution ends with the error in
  the status line and the session dictionary is the one the execution started with (after
  the initialisation of an absent slot, which leaves a slot that is present alone): a
  summary stored by an earlier execution is still there. If all three stages return, the
  slot holds the value the reduce stage returned.
\<close>

theorem failed_run_keeps_final_summary:
  assumes "uploaded_file u = Some data" and "button u"
    and "call_write env TEMP_PDF_PATH data (init_session w) = (None, wa)"
  shows
    "((\<exists>w1. process_pdf env TEMP_PDF_PATH (user_start_page u) (user_end_page u)
              (emit (ProgressCreate 0) wa) = (Inl e, w1)) \<or>
      (\<exists>pages w1 w2.
          process_pdf env TEMP_PDF_PATH (user_start_page u) (user_end_page u)
            (emit (ProgressCreate 0) wa) = (Inr pages, w1) \<and>
          generate_map_summaries env u pages
            (emit (StatusInfo ''Step 1: Generating map summaries...'') w1) = (Inl e, w2)) \<or>
      (\<exists>pages w1 ys w2 w3.
          process_pdf env TEMP_PDF_PATH (user_start_page u) (user_end_page u)
            (emit (ProgressCreate 0) wa) = (Inr pages, w1) \<and>
          generate_map_summaries env u pages
            (emit (StatusInfo ''Step 1: Generating map summaries...'') w1) = (Inr ys, w2) \<and>
          generate_reduce_summary env u ys
            (emit (StatusInfo ''Step 2: Generating final summary...'') w2) = (Inl e, w3))
      \<longrightarrow> session_state (snd (script env u w)) = session_state (init_session w) \<and>
          (\<forall>v. session_state w ''final_summary'' = Some v \<longrightarrow>
               session_state (snd (script env u w)) = session_state w) \<and>
          last (trace (snd (script env u w))) = StatusError e) \<and>
     (\<forall>pages w1 ys w2 s w3.
          process_pdf env TEMP_PDF_PATH (user_start_page u) (user_end_page u)
            (emit (ProgressCreate 0) wa) = (Inr pages, w1) \<and>
          generate_map_summaries env u pages
            (emit (StatusInfo ''Step 1: Generating map summaries...'') w1) = (Inr ys, w2) \<and>
          generate_reduce_summary env u ys
            (emit (StatusInfo ''Step 2: Generating final summary...'') w2) = (Inr s, w3)
      \<longrightarrow> session_state (snd (script env u w)) =
            (session_state (init_session w))(''final_summary'' \<mapsto> Some s))"
proof -
  note wr = call_write_None(2)[OF assms(3)]
  have keep: "session_state (init_session w) = session_state w"
    if "session_state w ''final_summary'' = Some v" for v
    using that by (auto simp: init_session_def)
  have a: "session_state (snd (script env u w)) = session_state (init_session w) \<and>
           last (trace (snd (script env u w))) = StatusError e"
    if "process_pdf env TEMP_PDF_PATH (user_start_page u) (user_end_page u)
          (emit (ProgressCreate 0) wa) = (Inl e, w1)" for w1
    using that assms process_pdf_spec[OF that] wr
    by (simp add: script_def on_click_def try_block_def Let_def)
  have b: "session_state (snd (script env u w)) = session_state (init_session w) \<and>
           last (trace (snd (script env u w))) = StatusError e"
    if "process_pdf env TEMP_PDF_PATH (user_start_page u) (user_end_page u)
          (emit (ProgressCreate 0) wa) = (Inr pages, w1)"
      and "generate_map_summaries env u pages
          (emit (StatusInfo ''Step 1: Generating map summaries...'') w1) = (Inl e, w2)"
    for pages w1 w2
    using that assms process_pdf_spec[OF that(1)] generate_map_summaries_frame[OF that(2)] wr
    by (auto simp: script_def on_click_def try_block_def Let_def)
  have c: "session_state (snd (script env u w)) = session_state (init_session w) \<and>
           last (trace (snd (script env u w))) = StatusError e"
    if "process_pdf env TEMP_PDF_PATH (user_start_page u) (user_end_page u)
          (emit (ProgressCreate 0) wa) = (Inr pages, w1)"
      and "generate_map_summaries env u pages
          (emit (StatusInfo ''Step 1: Generating map summaries...'') w1) = (Inr ys, w2)"
      and "generate_reduce_summary env u ys
          (emit (StatusInfo ''Step 2: Generating final summary...'') w2) = (Inl e, w3)"
    for pages w1 ys w2 w3
    using that assms process_pdf_spec[OF that(1)] generate_map_summaries_frame[OF that(2)]
      generate_reduce_summary_spec[OF that(3)] wr
    by (auto simp: script_def on_click_def try_block_def Let_def)
  have d: "session_state (snd (script env u w)) =
            (session_state (init_session w))(''final_summary'' \<mapsto> Some s)"
    if "process_pdf env TEMP_PDF_PATH (user_start_page u) (user_end_page u)
          (emit (ProgressCreate 0) wa) = (Inr pages, w1)"
      and "generate_map_summaries env u pages
          (emit (StatusInfo ''Step 1: Generating map summaries...'') w1) = (Inr ys, w2)"
      and "generate_reduce_summary env u ys
          (emit (StatusInfo ''Step 2: Generating final summary...'') w2) = (Inr s, w3)"
    for pages w1 ys w2 s w3
    using that assms process_pdf_spec[OF that(1)] generate_map_summaries_frame[OF that(2)]
      generate_reduce_summary_spec[OF that(3)] wr
    by (auto simp: script_def on_click_def try_block_def Let_def)
  from a b c d keep show ?thesis by (metis (no_types, lifting))
qed


theorem failed_run_keeps_final_summary_witness:
  "session_state
     (snd (script (stub_env [(1, ''good''), (2, ''bad'')]) (stub_ui General 1 2)
             (stub_world (Some (Some ''old summary''))))) ''final_summary''
     = Some (Some ''old summary'') \<and>
   last (trace (snd (script (stub_env [(1, ''good''), (2, ''bad'')]) (stub_ui General 1 2)
             (stub_world (Some (Some ''old summary''))))))
     = StatusError (Raised ''CompletionError'')"
proof -
  let ?env = "stub_env [(1, ''good''), (2, ''bad'')]" and ?u = "stub_ui General 1 2"
  let ?w = "stub_world (Some (Some ''old summary''))"
  let ?wa = "snd (call_write ?env TEMP_PDF_PATH ''%PDF'' (init_session ?w))"
  let ?w1 = "snd (process_pdf ?env TEMP_PDF_PATH 1 2 (emit (ProgressCreate 0) ?wa))"
  let ?w2 = "snd (generate_map_summaries ?env ?u [(1, ''good''), (2, ''bad'')]
                   (emit (StatusInfo ''Step 1: Generating map summaries...'') ?w1))"
  have 1: "uploaded_file ?u = Some ''%PDF''" and 2: "button ?u"
    by (simp_all add: stub_ui_def)
  have 3: "call_write ?env TEMP_PDF_PATH ''%PDF'' (init_session ?w) = (None, ?wa)"
    by (simp add: stub_defs init_session_def)
  have 4: "process_pdf ?env TEMP_PDF_PATH (user_start_page ?u) (user_end_page ?u)
             (emit (ProgressCreate 0) ?wa) = (Inr [(1, ''good''), (2, ''bad'')], ?w1)"
    by (simp add: stub_defs init_session_def process_pdf_def)
  have 5: "generate_map_summaries ?env ?u [(1, ''good''), (2, ''bad'')]
             (emit (StatusInfo ''Step 1: Generating map summaries...'') ?w1)
           = (Inl (Raised ''CompletionError''), ?w2)"
    by (simp add: stub_defs init_session_def process_pdf_def)
  have slot: "session_state ?w ''final_summary'' = Some (Some ''old summary'')"
    by (simp add: stub_world_def)
  from 4 5 have fails:
    "\<exists>pages w1 w2.
        process_pdf ?env TEMP_PDF_PATH (user_start_page ?u) (user_end_page ?u)
          (emit (ProgressCreate 0) ?wa) = (Inr pages, w1) \<and>
        generate_map_summaries ?env ?u pages
          (emit (StatusInfo ''Step 1: Generating map summaries...'') w1)
        = (Inl (Raised ''CompletionError''), w2)"
    by blast
  from failed_run_keeps_final_summary[OF 1 2 3, of "Raised ''CompletionError''"] fails
  have "session_state (snd (script ?env ?u ?w)) = session_state ?w"
    and "last (trace (snd (script ?env ?u ?w))) = StatusError (Raised ''CompletionError'')"
    using slot by blast+
  with slot show ?thesis by simp
qed

section \<open>The page range\<close>

text \<open>
  Claim C2, as the code has it. The program has no check of the page range. In every
  execution in which the button handler runs, whatever the two page numbers are (a start
  page above the end page included), the page extractor is called with them as they
  are, straight after the temporary file is written and the progress bar created. If the
  extractor raises, its exception is logged and shown in the status line, and that is
  the end: no prompt is built, no model call is made, and the session dictionary is
  left as it was.
\<close>

theorem range_not_validated:
  assumes "uploaded_file u = Some data" and "button u"
    and "call_write env TEMP_PDF_PATH data (init_session w) = (None, wa)"
  shows "\<exists>evs. trace (snd (script env u w)) =
           trace w @ [WriteFile TEMP_PDF_PATH data, ProgressCreate 0,
                      ExtractCall TEMP_PDF_PATH (user_start_page u) (user_end_page u)] @ evs \<and>
         (\<forall>e x. extract_pages_text env TEMP_PDF_PATH (user_start_page u) (user_end_page u)
                   (ext wa) = (Inl e, x) \<longrightarrow>
            evs = [LogError (PdfError (Raised e)), StatusError (Raised e)] \<and>
            fst (script env u w) = None \<and> ext (snd (script env u w)) = x \<and>
            session_state (snd (script env u w)) = session_state (init_session w))"
proof -
  let ?s = "user_start_page u" and ?e = "user_end_page u"
  let ?ws = "emit (ProgressCreate 0) wa"
  note wr = call_write_None[OF assms(3)]
  have pre: "trace ?ws = trace w @ [WriteFile TEMP_PDF_PATH data, ProgressCreate 0]"
    using wr(1) by simp
  obtain r x where ex: "extract_pages_text env TEMP_PDF_PATH ?s ?e (ext wa) = (r, x)"
    by (cases "extract_pages_text env TEMP_PDF_PATH ?s ?e (ext wa)")
  show ?thesis
  proof (cases r)
    case (Inl err)
    have "script env u w =
            (None, emit (StatusError (Raised err))
               (?ws\<lparr>ext := x,
                    trace := trace ?ws @ [ExtractCall TEMP_PDF_PATH ?s ?e,
                                          LogError (PdfError (Raised err))]\<rparr>))"
      using assms ex Inl
      by (simp add: script_def on_click_def try_block_def process_pdf_eq)
    with pre wr(2) ex Inl show ?thesis by simp
  next
    case (Inr pages)
    let ?w1 = "?ws\<lparr>ext := x,
                    trace := trace ?ws @ [ExtractCall TEMP_PDF_PATH ?s ?e,
                                          LogInfo (PagesLoaded (length pages))]\<rparr>"
    have p: "process_pdf env TEMP_PDF_PATH ?s ?e ?ws = (Inr pages, ?w1)"
      using ex Inr by (simp add: process_pdf_eq)
    let ?w2 = "emit (StatusInfo ''Step 1: Generating map summaries...'') ?w1"
    obtain r2 w3 where m: "generate_map_summaries env u pages ?w2 = (r2, w3)"
      by (cases "generate_map_summaries env u pages ?w2")
    from generate_map_summaries_frame[OF m] obtain evs2 where
      t3: "trace w3 = trace ?w2 @ evs2" by blast
    have "\<exists>evs. trace (snd (script env u w)) = trace ?w2 @ evs"
    proof (cases r2)
      case (Inl e2)
      with assms p m have "script env u w = (None, emit (StatusError e2) w3)"
        by (simp add: script_def on_click_def try_block_def Let_def)
      with t3 show ?thesis by simp
    next
      case (Inr ys)
      let ?w4 = "emit (StatusInfo ''Step 2: Generating final summary...'') w3"
      obtain r3 w5 where g: "generate_reduce_summary env u ys ?w4 = (r3, w5)"
        by (cases "generate_reduce_summary env u ys ?w4")
      from generate_reduce_summary_spec[OF g] obtain evs3 where
        t5: "trace w5 = trace ?w4 @ evs3" by blast
      show ?thesis
      proof (cases r3)
        case (Inl e3)
        with assms p m Inr g have "script env u w = (None, emit (StatusError e3) w5)"
          by (simp add: script_def on_click_def try_block_def Let_def)
        with t3 t5 show ?thesis by simp
      next
        case (Inr s)
        with assms p m \<open>r2 = Inr ys\<close> g have
          "trace (snd (script env u w)) =
             trace w5 @ [StatusSuccess ''Summary generation completed successfully!'']"
          by (simp add: script_def on_click_def try_block_def Let_def)
        with t3 t5 show ?thesis by simp
      qed
    qed
    then obtain evs where "trace (snd (script env u w)) = trace ?w2 @ evs" by blast
    with pre ex Inr show ?thesis by simp
  qed
qed

theorem range_not_validated_witness:
  "trace (snd (script (stub_env [(1, ''good''), (2, ''bad'')]) (stub_ui General 5 2)
                 (stub_world None)))
     = [WriteFile TEMP_PDF_PATH ''%PDF'', ProgressCreate 0, ExtractCall TEMP_PDF_PATH 5 2,
        LogError (PdfError (Raised ''ValueError'')), StatusError (Raised ''ValueError'')]"
proof -
  let ?env = "stub_env [(1, ''good''), (2, ''bad'')]" and ?u = "stub_ui General 5 2"
  let ?w = "stub_world None"
  let ?wa = "snd (call_write ?env TEMP_PDF_PATH ''%PDF'' (init_session ?w))"
  have 1: "uploaded_file ?u = Some ''%PDF''" and 2: "button ?u"
    by (simp_all add: stub_ui_def)
  have 3: "call_write ?env TEMP_PDF_PATH ''%PDF'' (init_session ?w) = (None, ?wa)"
    by (simp add: stub_defs init_session_def)
  have 4: "extract_pages_text ?env TEMP_PDF_PATH (user_start_page ?u) (user_end_page ?u)
             (ext ?wa) = (Inl ''ValueError'', 0)"
    by (simp add: stub_defs init_session_def)
  from range_not_validated[OF 1 2 3] 4 show ?thesis
    by (auto simp: stub_ui_def stub_world_def)
qed

theorem range_check_counterexample:
  "user_end_page (stub_ui General 5 2) < user_start_page (stub_ui General 5 2) \<and>
   1 \<le> user_end_page (stub_ui General 5 2) \<and>
   ExtractCall ''temp.pdf'' 5 2
     \<in> set (trace (snd (script (stub_env [(1, ''good''), (2, ''bad'')]) (stub_ui General 5 2)
                           (stub_world None))))"
  by (simp add: stub_defs script_def on_click_def try_block_def process_pdf_def
      init_session_def TEMP_PDF_PATH_def)

section \<open>The text of the reduce prompt\<close>

text \<open>
  Claim C6, as the code has it. The reduce stage first builds its prompt, from the
  constant reduce template and the text \<open>reduce_text\<close>: the summaries joined in their
  order with a newline, from which each doubled newline, found from left to right, is
  then deleted (not replaced by one newline). So every character of every summary that
  is not a newline is in the text, in order, and the text has no doubled newline; two
  summaries need not be separated in it.
\<close>

theorem reduce_text_content:
  "(\<exists>evs. trace (snd (generate_reduce_summary env u map_summaries w)) =
           trace w @
             BuildCall REDUCE_PROMPT_RESEARCH (reduce_text map_summaries) (user_reduce_words u)
               # evs) \<and>
   reduce_text map_summaries =
     str_replace ''\<newline>\<newline>'' [] (str_join ''\<newline>'' map_summaries) \<and>
   filter (\<lambda>c. c \<noteq> CHR ''\<newline>'') (reduce_text map_summaries) =
     filter (\<lambda>c. c \<noteq> CHR ''\<newline>'') (concat map_summaries) \<and>
   \<not> sublist ''\<newline>\<newline>'' (reduce_text map_summaries)"
proof -
  have "\<exists>evs. trace (snd (generate_reduce_summary env u map_summaries w)) =
           trace w @
             BuildCall REDUCE_PROMPT_RESEARCH (reduce_text map_summaries) (user_reduce_words u)
               # evs"
    using generate_reduce_summary_spec[OF surjective_pairing] by blast
  moreover have "filter (\<lambda>c. c \<noteq> CHR ''\<newline>'') (reduce_text map_summaries) =
     filter (\<lambda>c. c \<noteq> CHR ''\<newline>'') (concat map_summaries)"
    unfolding reduce_text_def
    by (subst str_replace_filter) (simp_all add: str_join_filter)
  moreover have "\<not> sublist ''\<newline>\<newline>'' (reduce_text map_summaries)"
    unfolding reduce_text_def by (simp add: str_replace_no_doubled_newline)
  ultimately show ?thesis by (simp add: reduce_text_def)
qed

theorem reduce_text_counterexample:
  "str_join ''\<newline>'' [''a\<newline>'', ''b''] = ''a\<newline>\<newline>b'' \<and>
   collapse_doubled_newlines (str_join ''\<newline>'' [''a\<newline>'', ''b'']) = ''a\<newline>b'' \<and>
   reduce_text [''a\<newline>'', ''b''] = ''ab'' \<and>
   reduce_text [''a\<newline>'', ''b''] \<noteq>
     collapse_doubled_newlines (str_join ''\<newline>'' [''a\<newline>'', ''b''])"
  by (simp add: reduce_text_def collapse_doubled_newlines_def)

section \<open>The templates of the selected mode\<close>

text \<open>
  Claim C1 at the mode General. The script reads the General templates out of
  \<^verbatim>\<open>mode_settings\<close> into \<^verbatim>\<open>map_prompt_template\<close> and \<^verbatim>\<open>reduce_prompt_template\<close>, but
  neither stage uses these: in an execution with the mode General over two pages, every
  prompt of the map stage is built from \<^verbatim>\<open>MAP_PROMPT_RESEARCH\<close> and the prompt of the
  reduce stage from \<^verbatim>\<open>REDUCE_PROMPT_RESEARCH\<close>, which are not the General templates. The
  system message, in contrast, is the one of the selected mode.
\<close>

theorem general_mode_builds_research_prompts:
  "built_templates
     (trace (snd (script (stub_env [(1, ''Intro text.''), (2, ''Methods text.'')])
                    (stub_ui General 1 2) (stub_world None))))
     = [MAP_PROMPT_RESEARCH, MAP_PROMPT_RESEARCH, REDUCE_PROMPT_RESEARCH] \<and>
   map_prompt_template (stub_env [(1, ''Intro text.''), (2, ''Methods text.'')])
       (stub_ui General 1 2)
     = ''general map template {text} {max_words}'' \<and>
   reduce_prompt_template (stub_env [(1, ''Intro text.''), (2, ''Methods text.'')])
       (stub_ui General 1 2)
     = ''general reduce template {text} {max_words}'' \<and>
   MAP_PROMPT_RESEARCH \<noteq> ''general map template {text} {max_words}'' \<and>
   REDUCE_PROMPT_RESEARCH \<noteq> ''general reduce template {text} {max_words}'' \<and>
   user_system_message (stub_env [(1, ''Intro text.''), (2, ''Methods text.'')])
       (stub_ui General 1 2)
     = ''general system message''"
proof -
  have "built_templates
     (trace (snd (script (stub_env [(1, ''Intro text.''), (2, ''Methods text.'')])
                    (stub_ui General 1 2) (stub_world None))))
     = [MAP_PROMPT_RESEARCH, MAP_PROMPT_RESEARCH, REDUCE_PROMPT_RESEARCH]"
    by (simp add: stub_defs script_def on_click_def try_block_def process_pdf_def
        init_session_def generate_reduce_summary_def reduce_body_def reduce_text_def
        built_templates_def built_template_def)
  moreover have "MAP_PROMPT_RESEARCH \<noteq> ''general map template {text} {max_words}''"
    by (simp add: MAP_PROMPT_RESEARCH_def)
  moreover have "REDUCE_PROMPT_RESEARCH \<noteq> ''general reduce template {text} {max_words}''"
    by (simp add: REDUCE_PROMPT_RESEARCH_def)
  ultimately show ?thesis
    by (simp add: map_prompt_template_def reduce_prompt_template_def user_system_message_def
        mode_settings_def stub_env_def stub_ui_def)
qed

end
